theory Spec2Isabelle
  imports Complex_Main "HOL-Library.Char_ord" "HOL-Library.List_Lexorder" "HOL-Library.Monad_Syntax"
begin

section \<open>JSON values and the Python operations the scripts apply to them\<close>

text \<open>
  The scripts work on the values that \<^verbatim>\<open>json.load\<close> and \<^verbatim>\<open>resp.json()\<close> return:
  \<^verbatim>\<open>None\<close>, booleans, integers, strings, lists and dictionaries with string keys.
  A dictionary is an association list read through \<open>map_of\<close>; its keys are taken to
  be distinct, as they are in a Python \<^verbatim>\<open>dict\<close>. JSON numbers with a fractional part
  are not part of this model.
\<close>

datatype json =
    JNull
  | JBool bool
  | JInt int
  | JStr string
  | JList "json list"
  | JObj "(string \<times> json) list"

text \<open>The exceptions that can leave the scripts. \<open>ParquetError\<close> stands for whatever
  \<^verbatim>\<open>pd.DataFrame\<close> or \<^verbatim>\<open>df.to_parquet\<close> raises on rows they cannot store.\<close>

datatype error =
    AttributeError
  | TypeError
  | HTTPError
  | JSONDecodeError
  | FileNotFoundError
  | ValueError
  | ParquetError

text \<open>Python truth value of a JSON value, as tested by \<^verbatim>\<open>while cursor\<close> and
  \<^verbatim>\<open>if not page_items\<close>.\<close>

fun truthy :: "json \<Rightarrow> bool" where
  "truthy JNull = False"
| "truthy (JBool b) = b"
| "truthy (JInt n) = (n \<noteq> 0)"
| "truthy (JStr s) = (s \<noteq> [])"
| "truthy (JList xs) = (xs \<noteq> [])"
| "truthy (JObj kvs) = (kvs \<noteq> [])"

text \<open>\<^verbatim>\<open>d.get(k, default)\<close>: only a dictionary has the method; on any other value
  the attribute lookup raises \<^verbatim>\<open>AttributeError\<close>.\<close>

definition py_lookup :: "(string \<times> json) list \<Rightarrow> string \<Rightarrow> json \<Rightarrow> json" where
  "py_lookup kvs k dflt = (case map_of kvs k of None \<Rightarrow> dflt | Some v \<Rightarrow> v)"

fun dict_get :: "json \<Rightarrow> string \<Rightarrow> json \<Rightarrow> error + json" where
  "dict_get (JObj kvs) k dflt = Inr (py_lookup kvs k dflt)"
| "dict_get _ k dflt = Inl AttributeError"

text \<open>\<^verbatim>\<open>d.get(k)\<close>: the default is \<^verbatim>\<open>None\<close>.\<close>

definition get1 :: "json \<Rightarrow> string \<Rightarrow> error + json" where
  "get1 d k = dict_get d k JNull"

text \<open>Iteration (\<^verbatim>\<open>for x in v\<close>, \<^verbatim>\<open>list.extend(v)\<close>): a list yields its elements, a
  string its characters, a dictionary its keys; the other values are not iterable.\<close>

fun iterate :: "json \<Rightarrow> error + json list" where
  "iterate (JList xs) = Inr xs"
| "iterate (JStr s) = Inr (map (\<lambda>c. JStr [c]) s)"
| "iterate (JObj kvs) = Inr (map (\<lambda>kv. JStr (fst kv)) kvs)"
| "iterate _ = Inl TypeError"

text \<open>A dictionary display \<^verbatim>\<open>{k1: e1, k2: e2, ...}\<close>: the value expressions are
  evaluated in order and the first exception leaves the display.\<close>

fun build_dict :: "(string \<times> (error + json)) list \<Rightarrow> error + (string \<times> json) list" where
  "build_dict [] = Inr []"
| "build_dict ((k, Inl e) # rest) = Inl e"
| "build_dict ((k, Inr v) # rest) =
     (case build_dict rest of Inl e \<Rightarrow> Inl e | Inr kvs \<Rightarrow> Inr ((k, v) # kvs))"

section \<open>validate.py: flatten\<close>

text \<open>The flat row is the dictionary that \<^verbatim>\<open>flatten\<close> returns, with its keys in the
  order of the display.\<close>

definition flatten :: "json \<Rightarrow> error + (string \<times> json) list" where
  "flatten rec =
     (case dict_get rec ''home_team'' (JObj []) of
        Inl e \<Rightarrow> Inl e
      | Inr home_team \<Rightarrow>
     (case dict_get rec ''visitor_team'' (JObj []) of
        Inl e \<Rightarrow> Inl e
      | Inr visitor_team \<Rightarrow>
          build_dict
            [(''game_id'', get1 rec ''id''),
             (''date'', get1 rec ''date''),
             (''season'', get1 rec ''season''),
             (''status'', get1 rec ''status''),
             (''periode'', get1 rec ''period''),
             (''postseason'', get1 rec ''postseason''),
             (''home_team_id'', get1 home_team ''id''),
             (''home_team_full_name'', get1 home_team ''full_name''),
             (''home_team_score'', get1 rec ''home_team_score''),
             (''visitor_team_id'', get1 visitor_team ''id''),
             (''visitor_team_full_name'', get1 visitor_team ''full_name''),
             (''visitor_team_score'', get1 rec ''visitor_team_score'')]))"

definition FLAT_COLUMNS :: "string list" where
  "FLAT_COLUMNS =
     [''game_id'', ''date'', ''season'', ''status'', ''periode'', ''postseason'',
      ''home_team_id'', ''home_team_full_name'', ''home_team_score'',
      ''visitor_team_id'', ''visitor_team_full_name'', ''visitor_team_score'']"

text \<open>The top-level keys that \<^verbatim>\<open>flatten\<close> copies, each with the column it fills.\<close>

definition SCALAR_COLUMNS :: "(string \<times> string) list" where
  "SCALAR_COLUMNS =
     [(''id'', ''game_id''), (''date'', ''date''), (''season'', ''season''),
      (''status'', ''status''), (''period'', ''periode''), (''postseason'', ''postseason''),
      (''home_team_score'', ''home_team_score''),
      (''visitor_team_score'', ''visitor_team_score'')]"

text \<open>A team entry on which \<^verbatim>\<open>.get\<close> can be called: the key is absent (the default
  \<^verbatim>\<open>{}\<close> is used) or its value is a dictionary.\<close>

fun team_entry_ok :: "json option \<Rightarrow> bool" where
  "team_entry_ok None = True"
| "team_entry_ok (Some (JObj t)) = True"
| "team_entry_ok (Some _) = False"

section \<open>ingest.py: the paginated fetch of one season\<close>

text \<open>
  A request is determined by its query parameters. The remote service is a parameter of
  the model: \<open>srv n p\<close> is the response to the request with parameters \<open>p\<close> when
  \<open>n\<close> requests have been issued before it in this season's fetch. The payload is what
  \<^verbatim>\<open>resp.json()\<close> returns, \<open>None\<close> when the body is not JSON.
\<close>

datatype params = Params (per_page: nat) (seasons: int) (cursor: "json option")

record response =
  status_code :: int
  payload :: "json option"

type_synonym server = "nat \<Rightarrow> params \<Rightarrow> response"

text \<open>What the fetch does to the outside world, in order.\<close>

datatype event = Request params | Sleep nat

definition MAX_PAGES :: nat where
  "MAX_PAGES = 60"

text \<open>\<^verbatim>\<open>resp.raise_for_status()\<close> raises for the client and server error codes.\<close>

definition http_error :: "response \<Rightarrow> bool" where
  "http_error r = (400 \<le> status_code r \<and> status_code r < 600)"

text \<open>\<^verbatim>\<open>payload.get("meta", {}).get("next_cursor")\<close>\<close>

definition next_cursor_of :: "json \<Rightarrow> error + json" where
  "next_cursor_of pl =
     (case dict_get pl ''meta'' (JObj []) of
        Inl e \<Rightarrow> Inl e
      | Inr meta \<Rightarrow> get1 meta ''next_cursor'')"

text \<open>\<^verbatim>\<open>all_games.extend(page_items)\<close>\<close>

definition list_extend :: "json list \<Rightarrow> json \<Rightarrow> error + json list" where
  "list_extend all_games page_items =
     (case iterate page_items of
        Inl e \<Rightarrow> Inl e
      | Inr xs \<Rightarrow> Inr (all_games @ xs))"

text \<open>
  The \<^verbatim>\<open>while cursor and page < MAX_PAGES\<close> loop. Its state is the page counter, the
  cursor and the accumulated games; \<open>n\<close> counts the requests issued so far and \<open>trace\<close>
  records them with the sleeps. The result is the trace and either the exception that left
  the loop or the page counter and the games that are then written to the season's file.
\<close>

function pagination ::
  "nat \<Rightarrow> server \<Rightarrow> int \<Rightarrow> nat \<Rightarrow> json \<Rightarrow> json list \<Rightarrow> nat \<Rightarrow> event list
     \<Rightarrow> event list \<times> (error + nat \<times> json list)" where
  "pagination max_pages srv years page cur all_games n trace =
     (if truthy cur \<and> page < max_pages then
        (if status_code (srv n (Params 100 years (Some cur))) = 429 then
           pagination max_pages srv years (page + 1) cur all_games (n + 1)
             (trace @ [Request (Params 100 years (Some cur)), Sleep 12])
         else if http_error (srv n (Params 100 years (Some cur))) then
           (trace @ [Request (Params 100 years (Some cur))], Inl HTTPError)
         else
           (case payload (srv n (Params 100 years (Some cur))) of
              None \<Rightarrow> (trace @ [Request (Params 100 years (Some cur))], Inl JSONDecodeError)
            | Some pl \<Rightarrow>
           (case dict_get pl ''data'' (JList []) of
              Inl e \<Rightarrow> (trace @ [Request (Params 100 years (Some cur))], Inl e)
            | Inr page_items \<Rightarrow>
                if \<not> truthy page_items then
                  (trace @ [Request (Params 100 years (Some cur))], Inr (page + 1, all_games))
                else
           (case next_cursor_of pl of
              Inl e \<Rightarrow> (trace @ [Request (Params 100 years (Some cur))], Inl e)
            | Inr cur' \<Rightarrow>
           (case list_extend all_games page_items of
              Inl e \<Rightarrow> (trace @ [Request (Params 100 years (Some cur))], Inl e)
            | Inr all_games' \<Rightarrow>
                pagination max_pages srv years (page + 1) cur' all_games' (n + 1)
                  (trace @ [Request (Params 100 years (Some cur)), Sleep 12]))))))
      else (trace, Inr (page, all_games)))"
  by pat_completeness auto
termination
  by (relation "measure (\<lambda>(max_pages, srv, years, page, cur, all_games, n, trace). max_pages - page)")
     auto

declare pagination.simps [simp del]

text \<open>
  The body of the \<^verbatim>\<open>for years in SEASONS\<close> loop: the first request without a cursor,
  retried once after a 429, then the pagination loop.
\<close>

definition fetch_season ::
  "nat \<Rightarrow> server \<Rightarrow> int \<Rightarrow> event list \<times> (error + nat \<times> json list)" where
  "fetch_season max_pages srv years =
     (let p0 = Params 100 years None;
          retry = (status_code (srv 0 p0) = 429);
          resp = (if retry then srv 1 p0 else srv 0 p0);
          n = (if retry then 2 else 1);
          trace = (if retry then [Request p0, Sleep 12, Request p0] else [Request p0])
      in if http_error resp then (trace, Inl HTTPError)
         else
           (case payload resp of
              None \<Rightarrow> (trace, Inl JSONDecodeError)
            | Some pl \<Rightarrow>
           (case dict_get pl ''data'' (JList []) of
              Inl e \<Rightarrow> (trace, Inl e)
            | Inr page_items \<Rightarrow>
           (case next_cursor_of pl of
              Inl e \<Rightarrow> (trace, Inl e)
            | Inr cur \<Rightarrow>
           (case list_extend [] page_items of
              Inl e \<Rightarrow> (trace, Inl e)
            | Inr all_games \<Rightarrow> pagination max_pages srv years 1 cur all_games n trace)))))"

text \<open>The number of requests in a trace.\<close>

fun is_request :: "event \<Rightarrow> bool" where
  "is_request (Request p) = True"
| "is_request (Sleep d) = False"

definition n_requests :: "event list \<Rightarrow> nat" where
  "n_requests trace = length (filter is_request trace)"

text \<open>A request without a cursor, as the first request of a season is.\<close>

fun cursorless :: "event \<Rightarrow> bool" where
  "cursorless (Request p) = (cursor p = None)"
| "cursorless (Sleep d) = False"

text \<open>A successful page with items and a cursor on which the loop goes on: the status
  is neither 429 nor an error, \<^verbatim>\<open>data\<close> is a non-empty list and \<^verbatim>\<open>next_cursor\<close> is a
  value that Python takes as true.\<close>

definition page_of :: "response \<Rightarrow> (json \<times> json) option" where
  "page_of r =
     (if status_code r = 429 \<or> http_error r then None
      else
        (case payload r of
           None \<Rightarrow> None
         | Some pl \<Rightarrow>
        (case (dict_get pl ''data'' (JList []), next_cursor_of pl) of
           (Inr items, Inr cur) \<Rightarrow> Some (items, cur)
         | _ \<Rightarrow> None)))"

fun nonempty_list :: "json \<Rightarrow> bool" where
  "nonempty_list (JList (x # xs)) = True"
| "nonempty_list _ = False"

definition good_page :: "response \<Rightarrow> bool" where
  "good_page r =
     (case page_of r of
        None \<Rightarrow> False
      | Some (items, cur) \<Rightarrow> nonempty_list items \<and> truthy cur)"

text \<open>The same with a cursor that is only required to be different from \<^verbatim>\<open>None\<close>.\<close>

definition nonnull_page :: "response \<Rightarrow> bool" where
  "nonnull_page r =
     (case page_of r of
        None \<Rightarrow> False
      | Some (items, cur) \<Rightarrow> nonempty_list items \<and> cur \<noteq> JNull)"

text \<open>Example services.\<close>

definition ok_response :: "json list \<Rightarrow> json \<Rightarrow> response" where
  "ok_response items cur =
     \<lparr>status_code = 200,
      payload = Some (JObj [(''data'', JList items), (''meta'', JObj [(''next_cursor'', cur)])])\<rparr>"

definition status_response :: "int \<Rightarrow> response" where
  "status_response c = \<lparr>status_code = c, payload = None\<rparr>"

text \<open>Every page has one game and the cursor 7.\<close>

definition endless_server :: server where
  "endless_server n p = ok_response [JObj [(''id'', JInt (int n))]] (JInt 7)"

text \<open>Every page has one game and the cursor 0.\<close>

definition zero_cursor_server :: server where
  "zero_cursor_server n p = ok_response [JObj [(''id'', JInt (int n))]] (JInt 0)"

text \<open>A first page with cursor 5, then 429 twice, then an empty page.\<close>

definition twice_limited_server :: server where
  "twice_limited_server n p =
     (if n = 0 then ok_response [JObj [(''id'', JInt 1)]] (JInt 5)
      else if n = 1 \<or> n = 2 then status_response 429
      else ok_response [] JNull)"

text \<open>429 on the first request, then a page with one game and no cursor.\<close>

definition once_limited_server :: server where
  "once_limited_server n p =
     (if n = 0 then status_response 429 else ok_response [JObj [(''id'', JInt 1)]] JNull)"

text \<open>429 on every request.\<close>

definition always_limited_server :: server where
  "always_limited_server n p = status_response 429"

section \<open>compute\_indicators.py: the indicator tables\<close>

text \<open>
  A row of the data frame read back from the clean tables, with the twelve columns that
  \<^verbatim>\<open>flatten\<close> produced. Scores are integers; the means are taken in the rationals,
  which is exact where pandas rounds to a double.
\<close>

record df_row =
  game_id :: int
  date :: string
  season :: int
  status :: string
  periode :: int
  postseason :: bool
  home_team_id :: int
  home_team_full_name :: string
  home_team_score :: int
  visitor_team_id :: int
  visitor_team_full_name :: string
  visitor_team_score :: int

text \<open>A pandas Series indexed by team name: the labels in index order, each with its
  value. \<open>None\<close> as a value stands for NaN.\<close>

type_synonym 'a series = "(string \<times> 'a) list"

text \<open>The columns \<^verbatim>\<open>home_win\<close> and \<^verbatim>\<open>visitor_win\<close> added to the frame.\<close>

definition home_win :: "df_row \<Rightarrow> bool" where
  "home_win r = (df_row.home_team_score r > df_row.visitor_team_score r)"

definition visitor_win :: "df_row \<Rightarrow> bool" where
  "visitor_win r = (df_row.visitor_team_score r > df_row.home_team_score r)"

text \<open>\<^verbatim>\<open>df.groupby(key)\<close>: the distinct keys in sorted order, each with its rows.\<close>

definition group_keys :: "(df_row \<Rightarrow> string) \<Rightarrow> df_row list \<Rightarrow> string list" where
  "group_keys key df = sort (remdups (map key df))"

definition group_rows :: "(df_row \<Rightarrow> string) \<Rightarrow> df_row list \<Rightarrow> string \<Rightarrow> df_row list" where
  "group_rows key df k = filter (\<lambda>r. key r = k) df"

definition mean :: "int list \<Rightarrow> rat" where
  "mean xs = of_int (sum_list xs) / of_nat (length xs)"

text \<open>\<^verbatim>\<open>df.groupby(key)[col].mean()\<close>\<close>

definition groupby_mean ::
  "(df_row \<Rightarrow> string) \<Rightarrow> (df_row \<Rightarrow> int) \<Rightarrow> df_row list \<Rightarrow> rat series" where
  "groupby_mean key col df =
     map (\<lambda>k. (k, mean (map col (group_rows key df k)))) (group_keys key df)"

text \<open>\<^verbatim>\<open>df.groupby(key)[col].sum()\<close> on a boolean column: the number of true entries.\<close>

definition groupby_sum ::
  "(df_row \<Rightarrow> string) \<Rightarrow> (df_row \<Rightarrow> bool) \<Rightarrow> df_row list \<Rightarrow> int series" where
  "groupby_sum key col df =
     map (\<lambda>k. (k, int (length (filter col (group_rows key df k))))) (group_keys key df)"

text \<open>\<^verbatim>\<open>s1 + s2\<close>: the result is indexed by the sorted union of the two indexes, and a
  label that one side lacks gets NaN.\<close>

definition add_series :: "('a::plus) series \<Rightarrow> 'a series \<Rightarrow> 'a option series" where
  "add_series s1 s2 =
     map (\<lambda>k. (k, case (map_of s1 k, map_of s2 k) of
                     (Some a, Some b) \<Rightarrow> Some (a + b)
                   | _ \<Rightarrow> None))
         (sort (remdups (map fst s1 @ map fst s2)))"

text \<open>\<^verbatim>\<open>s.sort_values(ascending=...)\<close>: by value, NaN last. Entries with equal values
  are kept in index order here; pandas sorts with quicksort by default and does not fix
  their order, so the order of ties, and with it which of them the first ten entries
  keep, is not taken from this model.\<close>

definition value_or_zero :: "('a::zero) option \<Rightarrow> 'a" where
  "value_or_zero v = (case v of None \<Rightarrow> 0 | Some x \<Rightarrow> x)"

definition sort_values :: "bool \<Rightarrow> ('a::linordered_idom) option series \<Rightarrow> 'a option series" where
  "sort_values ascending s =
     sort_key (\<lambda>kv. if ascending then value_or_zero (snd kv) else - value_or_zero (snd kv))
       (filter (\<lambda>kv. snd kv \<noteq> None) s)
     @ filter (\<lambda>kv. snd kv = None) s"

text \<open>The two components of the defensive table: the mean of the points a team concedes
  in its home games and in its away games.\<close>

definition home_conceded :: "df_row list \<Rightarrow> rat series" where
  "home_conceded df = groupby_mean df_row.home_team_full_name df_row.visitor_team_score df"

definition away_conceded :: "df_row list \<Rightarrow> rat series" where
  "away_conceded df = groupby_mean df_row.visitor_team_full_name df_row.home_team_score df"

definition best_attacks :: "df_row list \<Rightarrow> rat option series" where
  "best_attacks df =
     sort_values False
       (add_series (groupby_mean df_row.home_team_full_name df_row.home_team_score df)
                   (groupby_mean df_row.visitor_team_full_name df_row.visitor_team_score df))"

definition best_defenses :: "df_row list \<Rightarrow> rat option series" where
  "best_defenses df = sort_values True (add_series (home_conceded df) (away_conceded df))"

definition wins :: "df_row list \<Rightarrow> int option series" where
  "wins df =
     sort_values False
       (add_series (groupby_sum df_row.home_team_full_name home_win df)
                   (groupby_sum df_row.visitor_team_full_name visitor_win df))"

text \<open>The report written to \<^verbatim>\<open>indicators.json\<close> for the frame \<open>df\<close>: the first ten
  entries of each table.\<close>

record report =
  r_best_attacks :: "rat option series"
  r_best_defenses :: "rat option series"
  r_wins :: "int option series"

definition indicators :: "df_row list \<Rightarrow> report" where
  "indicators df =
     \<lparr>r_best_attacks = take 10 (best_attacks df),
      r_best_defenses = take 10 (best_defenses df),
      r_wins = take 10 (wins df)\<rparr>"

text \<open>\<^verbatim>\<open>pd.concat(dfs, ignore_index=True)\<close> raises \<^verbatim>\<open>ValueError\<close> when there is no clean
  table at all; the script then writes no report.\<close>

definition concat_frames :: "df_row list list \<Rightarrow> error + df_row list" where
  "concat_frames dfs = (if dfs = [] then Inl ValueError else Inr (concat dfs))"

definition compute_indicators :: "df_row list list \<Rightarrow> error + report" where
  "compute_indicators dfs =
     (case concat_frames dfs of
        Inl e \<Rightarrow> Inl e
      | Inr df \<Rightarrow> Inr (indicators df))"

text \<open>The two games of the specification's example: Team A beats Team B at home 110 to
  90, and Team B beats Team A at home 105 to 95, both in season 2021.\<close>

definition example_games :: "df_row list" where
  "example_games =
     [\<lparr>game_id = 1, date = ''2021-10-19'', season = 2021, status = ''Final'', periode = 4,
       postseason = False,
       home_team_id = 1, home_team_full_name = ''Team A'', home_team_score = 110,
       visitor_team_id = 2, visitor_team_full_name = ''Team B'', visitor_team_score = 90\<rparr>,
      \<lparr>game_id = 2, date = ''2021-10-21'', season = 2021, status = ''Final'', periode = 4,
       postseason = False,
       home_team_id = 2, home_team_full_name = ''Team B'', home_team_score = 105,
       visitor_team_id = 1, visitor_team_full_name = ''Team A'', visitor_team_score = 95\<rparr>]"

section \<open>schema.py: TeamInfo and Game\<close>

text \<open>
  The models are pydantic classes. What the library does to a single field (turning a
  JSON value into an \<^verbatim>\<open>int\<close>, \<^verbatim>\<open>str\<close>, \<^verbatim>\<open>bool\<close>, \<^verbatim>\<open>date\<close> or \<^verbatim>\<open>datetime\<close>, or
  rejecting it) and how it words a \<^verbatim>\<open>ValidationError\<close> are parameters of the model;
  what \<^verbatim>\<open>schema.py\<close> itself fixes (the fields, which are required, the bound
  \<^verbatim>\<open>ge=0\<close>, the nested models, \<^verbatim>\<open>extra="ignore"\<close> and the validator run after the
  fields) is defined below. A date and a datetime are kept as the ISO text that
  \<^verbatim>\<open>model_dump_json\<close> writes for them.
\<close>

record pydantic =
  int_of :: "json \<Rightarrow> int option"
  str_of :: "json \<Rightarrow> string option"
  bool_of :: "json \<Rightarrow> bool option"
  date_of :: "json \<Rightarrow> string option"
  datetime_of :: "json \<Rightarrow> string option"
  schema_text :: "json \<Rightarrow> string"
  value_error_text :: "string \<Rightarrow> json \<Rightarrow> string"

text \<open>\<open>schema_text\<close> is \<^verbatim>\<open>str(e)\<close> when fields of the input are rejected, and
  \<open>value_error_text t\<close> is \<^verbatim>\<open>str(e)\<close> when a validator raises \<^verbatim>\<open>ValueError(t)\<close>.\<close>

record TeamInfo =
  id' :: int
  conference :: string
  division :: string
  city :: string
  name :: string
  full_name :: string
  abbreviation' :: string

record Game =
  id' :: int
  date :: string
  season :: int
  status :: string
  period :: int
  time :: string
  postseason :: bool
  home_team_score :: int
  visitor_team_score :: int
  datetime :: string
  home_q1 :: "int option"
  home_q2 :: "int option"
  home_q3 :: "int option"
  home_q4 :: "int option"
  home_ot1 :: "int option"
  home_ot2 :: "int option"
  home_ot3 :: "int option"
  home_timeouts_remaining :: "int option"
  home_in_bonus :: "bool option"
  visitor_q1 :: "int option"
  visitor_q2 :: "int option"
  visitor_q3 :: "int option"
  visitor_q4 :: "int option"
  visitor_ot1 :: "int option"
  visitor_ot2 :: "int option"
  visitor_ot3 :: "int option"
  visitor_timeouts_remaining :: "int option"
  visitor_in_bonus :: "bool option"
  home_team :: TeamInfo
  visitor_team :: TeamInfo

definition TEAM_FIELDS :: "string list" where
  "TEAM_FIELDS =
     [''id'', ''conference'', ''division'', ''city'', ''name'', ''full_name'', ''abbreviation'']"

definition GAME_FIELDS :: "string list" where
  "GAME_FIELDS =
     [''id'', ''date'', ''season'', ''status'', ''period'', ''time'', ''postseason'',
      ''home_team_score'', ''visitor_team_score'', ''datetime'',
      ''home_q1'', ''home_q2'', ''home_q3'', ''home_q4'',
      ''home_ot1'', ''home_ot2'', ''home_ot3'',
      ''home_timeouts_remaining'', ''home_in_bonus'',
      ''visitor_q1'', ''visitor_q2'', ''visitor_q3'', ''visitor_q4'',
      ''visitor_ot1'', ''visitor_ot2'', ''visitor_ot3'',
      ''visitor_timeouts_remaining'', ''visitor_in_bonus'',
      ''home_team'', ''visitor_team'']"

text \<open>A field without a default: the key must be present and its value accepted.\<close>

definition required :: "(json \<Rightarrow> 'a option) \<Rightarrow> json option \<Rightarrow> 'a option" where
  "required f v = (case v of None \<Rightarrow> None | Some j \<Rightarrow> f j)"

text \<open>\<^verbatim>\<open>Optional[T] = None\<close>: an absent key and the value \<^verbatim>\<open>None\<close> both give \<^verbatim>\<open>None\<close>.\<close>

definition optional :: "(json \<Rightarrow> 'a option) \<Rightarrow> json option \<Rightarrow> 'a option option" where
  "optional f v =
     (case v of
        None \<Rightarrow> Some None
      | Some JNull \<Rightarrow> Some None
      | Some j \<Rightarrow> map_option Some (f j))"

text \<open>\<^verbatim>\<open>IntGE0 = Annotated[int, Field(ge=0)]\<close>\<close>

definition IntGE0 :: "pydantic \<Rightarrow> json \<Rightarrow> int option" where
  "IntGE0 P j = (case int_of P j of None \<Rightarrow> None | Some n \<Rightarrow> if 0 \<le> n then Some n else None)"

text \<open>The fields of a \<^verbatim>\<open>TeamInfo\<close>, read from a dictionary; keys that are not fields
  are not looked at.\<close>

definition team_fields :: "pydantic \<Rightarrow> (string \<Rightarrow> json option) \<Rightarrow> TeamInfo option" where
  "team_fields P f = do {
     i \<leftarrow> required (int_of P) (f ''id'');
     co \<leftarrow> required (str_of P) (f ''conference'');
     di \<leftarrow> required (str_of P) (f ''division'');
     ci \<leftarrow> required (str_of P) (f ''city'');
     na \<leftarrow> required (str_of P) (f ''name'');
     fu \<leftarrow> required (str_of P) (f ''full_name'');
     ab \<leftarrow> required (str_of P) (f ''abbreviation'');
     Some \<lparr>TeamInfo.id' = i, conference = co, division = di, city = ci, name = na,
           full_name = fu, abbreviation' = ab\<rparr>
   }"

fun validate_team :: "pydantic \<Rightarrow> json \<Rightarrow> TeamInfo option" where
  "validate_team P (JObj kvs) = team_fields P (map_of kvs)"
| "validate_team P _ = None"

definition game_fields :: "pydantic \<Rightarrow> (string \<Rightarrow> json option) \<Rightarrow> Game option" where
  "game_fields P f = do {
     i \<leftarrow> required (int_of P) (f ''id'');
     da \<leftarrow> required (date_of P) (f ''date'');
     se \<leftarrow> required (int_of P) (f ''season'');
     st \<leftarrow> required (str_of P) (f ''status'');
     pe \<leftarrow> required (IntGE0 P) (f ''period'');
     ti \<leftarrow> required (str_of P) (f ''time'');
     po \<leftarrow> required (bool_of P) (f ''postseason'');
     hs \<leftarrow> required (IntGE0 P) (f ''home_team_score'');
     vs \<leftarrow> required (IntGE0 P) (f ''visitor_team_score'');
     dt \<leftarrow> required (datetime_of P) (f ''datetime'');
     h1 \<leftarrow> optional (IntGE0 P) (f ''home_q1'');
     h2 \<leftarrow> optional (IntGE0 P) (f ''home_q2'');
     h3 \<leftarrow> optional (IntGE0 P) (f ''home_q3'');
     h4 \<leftarrow> optional (IntGE0 P) (f ''home_q4'');
     ho1 \<leftarrow> optional (IntGE0 P) (f ''home_ot1'');
     ho2 \<leftarrow> optional (IntGE0 P) (f ''home_ot2'');
     ho3 \<leftarrow> optional (IntGE0 P) (f ''home_ot3'');
     htr \<leftarrow> optional (IntGE0 P) (f ''home_timeouts_remaining'');
     hib \<leftarrow> optional (bool_of P) (f ''home_in_bonus'');
     v1 \<leftarrow> optional (IntGE0 P) (f ''visitor_q1'');
     v2 \<leftarrow> optional (IntGE0 P) (f ''visitor_q2'');
     v3 \<leftarrow> optional (IntGE0 P) (f ''visitor_q3'');
     v4 \<leftarrow> optional (IntGE0 P) (f ''visitor_q4'');
     vo1 \<leftarrow> optional (IntGE0 P) (f ''visitor_ot1'');
     vo2 \<leftarrow> optional (IntGE0 P) (f ''visitor_ot2'');
     vo3 \<leftarrow> optional (IntGE0 P) (f ''visitor_ot3'');
     vtr \<leftarrow> optional (IntGE0 P) (f ''visitor_timeouts_remaining'');
     vib \<leftarrow> optional (bool_of P) (f ''visitor_in_bonus'');
     ht \<leftarrow> required (validate_team P) (f ''home_team'');
     vt \<leftarrow> required (validate_team P) (f ''visitor_team'');
     Some \<lparr>Game.id' = i, date = da, season = se, status = st, period = pe, time = ti,
           postseason = po, home_team_score = hs, visitor_team_score = vs, datetime = dt,
           home_q1 = h1, home_q2 = h2, home_q3 = h3, home_q4 = h4,
           home_ot1 = ho1, home_ot2 = ho2, home_ot3 = ho3,
           home_timeouts_remaining = htr, home_in_bonus = hib,
           visitor_q1 = v1, visitor_q2 = v2, visitor_q3 = v3, visitor_q4 = v4,
           visitor_ot1 = vo1, visitor_ot2 = vo2, visitor_ot3 = vo3,
           visitor_timeouts_remaining = vtr, visitor_in_bonus = vib,
           home_team = ht, visitor_team = vt\<rparr>
   }"

text \<open>The validator run after the fields. \<open>Inl\<close> carries the text of the
  \<^verbatim>\<open>ValueError\<close> it raises.\<close>

definition check_team_different :: "Game \<Rightarrow> string + Game" where
  "check_team_different self =
     (if TeamInfo.id' (Game.home_team self) = TeamInfo.id' (Game.visitor_team self)
      then Inl ''Home and visitor team cannot be identical''
      else Inr self)"

text \<open>\<^verbatim>\<open>Game.model_validate(game)\<close>: \<open>Inl\<close> is a \<^verbatim>\<open>ValidationError\<close>, carrying its
  \<^verbatim>\<open>str(e)\<close>. An input that is not a dictionary is rejected like a bad field.\<close>

fun model_validate :: "pydantic \<Rightarrow> json \<Rightarrow> string + Game" where
  "model_validate P (JObj kvs) =
     (case game_fields P (map_of kvs) of
        None \<Rightarrow> Inl (schema_text P (JObj kvs))
      | Some g \<Rightarrow>
          (case check_team_different g of
             Inl text \<Rightarrow> Inl (value_error_text P text (JObj kvs))
           | Inr g' \<Rightarrow> Inr g'))"
| "model_validate P j = Inl (schema_text P j)"

text \<open>\<^verbatim>\<open>json.loads(g.model_dump_json())\<close>: every field in declaration order.\<close>

definition dump_int :: "int option \<Rightarrow> json" where
  "dump_int v = (case v of None \<Rightarrow> JNull | Some n \<Rightarrow> JInt n)"

definition dump_bool :: "bool option \<Rightarrow> json" where
  "dump_bool v = (case v of None \<Rightarrow> JNull | Some b \<Rightarrow> JBool b)"

definition dump_team :: "TeamInfo \<Rightarrow> json" where
  "dump_team t =
     JObj [(''id'', JInt (TeamInfo.id' t)),
           (''conference'', JStr (conference t)),
           (''division'', JStr (division t)),
           (''city'', JStr (city t)),
           (''name'', JStr (name t)),
           (''full_name'', JStr (full_name t)),
           (''abbreviation'', JStr (abbreviation' t))]"

definition model_dump :: "Game \<Rightarrow> json" where
  "model_dump g =
     JObj [(''id'', JInt (Game.id' g)),
           (''date'', JStr (Game.date g)),
           (''season'', JInt (Game.season g)),
           (''status'', JStr (Game.status g)),
           (''period'', JInt (Game.period g)),
           (''time'', JStr (Game.time g)),
           (''postseason'', JBool (Game.postseason g)),
           (''home_team_score'', JInt (Game.home_team_score g)),
           (''visitor_team_score'', JInt (Game.visitor_team_score g)),
           (''datetime'', JStr (Game.datetime g)),
           (''home_q1'', dump_int (home_q1 g)),
           (''home_q2'', dump_int (home_q2 g)),
           (''home_q3'', dump_int (home_q3 g)),
           (''home_q4'', dump_int (home_q4 g)),
           (''home_ot1'', dump_int (home_ot1 g)),
           (''home_ot2'', dump_int (home_ot2 g)),
           (''home_ot3'', dump_int (home_ot3 g)),
           (''home_timeouts_remaining'', dump_int (home_timeouts_remaining g)),
           (''home_in_bonus'', dump_bool (home_in_bonus g)),
           (''visitor_q1'', dump_int (visitor_q1 g)),
           (''visitor_q2'', dump_int (visitor_q2 g)),
           (''visitor_q3'', dump_int (visitor_q3 g)),
           (''visitor_q4'', dump_int (visitor_q4 g)),
           (''visitor_ot1'', dump_int (visitor_ot1 g)),
           (''visitor_ot2'', dump_int (visitor_ot2 g)),
           (''visitor_ot3'', dump_int (visitor_ot3 g)),
           (''visitor_timeouts_remaining'', dump_int (visitor_timeouts_remaining g)),
           (''visitor_in_bonus'', dump_bool (visitor_in_bonus g)),
           (''home_team'', dump_team (Game.home_team g)),
           (''visitor_team'', dump_team (Game.visitor_team g))]"

section \<open>validate.py: the validation loop, the clean tables and the quality reports\<close>

text \<open>\<^verbatim>\<open>needle in s\<close> on strings.\<close>

fun startswith :: "string \<Rightarrow> string \<Rightarrow> bool" where
  "startswith s [] = True"
| "startswith [] (p # ps) = False"
| "startswith (c # cs) (p # ps) = (c = p \<and> startswith cs ps)"

fun contains :: "string \<Rightarrow> string \<Rightarrow> bool" where
  "contains needle [] = (needle = [])"
| "contains needle (c # cs) = (startswith (c # cs) needle \<or> contains needle cs)"

text \<open>The global \<^verbatim>\<open>counters\<close> dictionary.\<close>

record counts =
  invalid_schema :: int
  same_team :: int

text \<open>
  The state of a run: the counters and the lines appended so far, in order, to the
  validated files and to the error files, each with the year of its file. A line is
  kept as the JSON value it holds.
\<close>

record vstate =
  counters :: counts
  valid_lines :: "(int \<times> json) list"
  error_lines :: "(int \<times> json) list"

definition init_state :: vstate where
  "init_state =
     \<lparr>counters = \<lparr>invalid_schema = 0, same_team = 0\<rparr>, valid_lines = [], error_lines = []\<rparr>"

text \<open>
  The body of \<^verbatim>\<open>for game in games_data\<close>. In the handler the counter is incremented
  first, then the error record is built (where \<^verbatim>\<open>game.get\<close> can raise), then written.
  The reason is cut with \<^verbatim>\<open>msg[:300]\<close>. An exception that leaves the loop is returned
  with the state in which it was raised: when \<^verbatim>\<open>game.get\<close> raises, the counter has been
  incremented and no error line has been written.
\<close>

definition validate_game ::
  "pydantic \<Rightarrow> int \<Rightarrow> json \<Rightarrow> vstate \<Rightarrow> (error \<times> vstate) + vstate" where
  "validate_game P year game st =
     (case model_validate P game of
        Inr g \<Rightarrow> Inr (st\<lparr>valid_lines := valid_lines st @ [(year, model_dump g)]\<rparr>)
      | Inl msg \<Rightarrow>
          (let same = contains ''Home and visitor teams cannot be identical'' msg;
               counters' =
                 (if same
                  then (counters st)\<lparr>same_team := same_team (counters st) + 1\<rparr>
                  else (counters st)\<lparr>invalid_schema := invalid_schema (counters st) + 1\<rparr>);
               err_type = (if same then ''same_team'' else ''invalid_schema'')
           in case build_dict
                     [(''type'', Inr (JStr err_type)),
                      (''game_id_hint'', get1 game ''id''),
                      (''season'', get1 game ''season''),
                      (''reason'', Inr (JStr (take 300 msg)))] of
                Inl e \<Rightarrow> Inl (e, st\<lparr>counters := counters'\<rparr>)
              | Inr er_s \<Rightarrow>
                  Inr (st\<lparr>counters := counters',
                          error_lines := error_lines st @ [(year, JObj er_s)]\<rparr>)))"

text \<open>The loop over the records of one file; an exception leaves it.\<close>

fun validate_partition ::
  "pydantic \<Rightarrow> int \<Rightarrow> json list \<Rightarrow> vstate \<Rightarrow> (error \<times> vstate) + vstate" where
  "validate_partition P year [] st = Inr st"
| "validate_partition P year (game # games) st =
     (case validate_game P year game st of
        Inl e \<Rightarrow> Inl e
      | Inr st' \<Rightarrow> validate_partition P year games st')"

definition YEARS :: "int list" where
  "YEARS = [2020, 2021, 2022, 2023, 2024]"

text \<open>The loop over the files. \<open>raw year\<close> is the content of
  \<^verbatim>\<open>data/raw/games_<year>.json\<close>, \<open>None\<close> when the file does not exist.\<close>

fun validate_files ::
  "pydantic \<Rightarrow> (int \<Rightarrow> json option) \<Rightarrow> int list \<Rightarrow> vstate
     \<Rightarrow> (error \<times> vstate) + vstate" where
  "validate_files P raw [] st = Inr st"
| "validate_files P raw (year # years) st =
     (case raw year of
        None \<Rightarrow> Inl (FileNotFoundError, st)
      | Some games_data \<Rightarrow>
     (case iterate games_data of
        Inl e \<Rightarrow> Inl (e, st)
      | Inr games \<Rightarrow>
     (case validate_partition P year games st of
        Inl e \<Rightarrow> Inl e
      | Inr st' \<Rightarrow> validate_files P raw years st')))"

text \<open>
  The validated file of a year after the first loop: the lines it held before the run
  (\<open>old year\<close>, \<open>None\<close> when the file did not exist) followed by the lines appended in
  the run. The file exists when it existed before or a line was appended.
\<close>

definition appended :: "int \<Rightarrow> (int \<times> json) list \<Rightarrow> json list" where
  "appended year lines = map snd (filter (\<lambda>yl. fst yl = year) lines)"

definition validated_file ::
  "(int \<Rightarrow> json list option) \<Rightarrow> vstate \<Rightarrow> int \<Rightarrow> json list option" where
  "validated_file old st year =
     (case old year of
        None \<Rightarrow> (if appended year (valid_lines st) = [] then None
                 else Some (appended year (valid_lines st)))
      | Some ls \<Rightarrow> Some (ls @ appended year (valid_lines st)))"

record quality_report =
  total_valid :: int
  error_counts :: counts

text \<open>The clean tables and the quality reports written, each with its year.\<close>

record outputs =
  clean :: "(int \<times> (string \<times> json) list list) list"
  reports :: "(int \<times> quality_report) list"

definition no_outputs :: outputs where
  "no_outputs = \<lparr>clean = [], reports = []\<rparr>"

fun flatten_all :: "json list \<Rightarrow> error + (string \<times> json) list list" where
  "flatten_all [] = Inr []"
| "flatten_all (rec # recs) =
     (case flatten rec of
        Inl e \<Rightarrow> Inl e
      | Inr row \<Rightarrow>
     (case flatten_all recs of
        Inl e \<Rightarrow> Inl e
      | Inr rows \<Rightarrow> Inr (row # rows)))"

text \<open>The second loop, \<^verbatim>\<open>for path in validate_file\<close>: a year without a validated file is
  skipped; otherwise its lines are flattened, the rows are made a data frame and written
  as the clean table, and the quality report of the year is written. What
  \<^verbatim>\<open>pd.DataFrame(row)\<close> and \<^verbatim>\<open>df.to_parquet\<close> do with the rows is the parameter
  \<open>to_parquet\<close>: \<open>None\<close> when the table is written, the exception otherwise. The
  result is what was written and the exception that ended the loop, if any.\<close>

fun clean_and_report ::
  "((string \<times> json) list list \<Rightarrow> error option) \<Rightarrow> (int \<Rightarrow> json list option) \<Rightarrow> vstate
     \<Rightarrow> int list \<Rightarrow> outputs \<Rightarrow> outputs \<times> error option" where
  "clean_and_report to_parquet old st [] out = (out, None)"
| "clean_and_report to_parquet old st (year # years) out =
     (case validated_file old st year of
        None \<Rightarrow> clean_and_report to_parquet old st years out
      | Some lines \<Rightarrow>
     (case flatten_all lines of
        Inl e \<Rightarrow> (out, Some e)
      | Inr rows \<Rightarrow>
     (case to_parquet rows of
        Some e \<Rightarrow> (out, Some e)
      | None \<Rightarrow>
          clean_and_report to_parquet old st years
            (out\<lparr>clean := clean out @ [(year, rows)],
                 reports := reports out @
                   [(year,
                     \<lparr>total_valid =
                        int (length (filter (\<lambda>y. validated_file old st y \<noteq> None) YEARS)),
                      error_counts = counters st\<rparr>)]\<rparr>))))"

text \<open>The whole script.\<close>

definition main ::
  "pydantic \<Rightarrow> ((string \<times> json) list list \<Rightarrow> error option) \<Rightarrow> (int \<Rightarrow> json option)
     \<Rightarrow> (int \<Rightarrow> json list option) \<Rightarrow> outputs \<times> error option" where
  "main P to_parquet raw old =
     (case validate_files P raw YEARS init_state of
        Inl e \<Rightarrow> (no_outputs, Some (fst e))
      | Inr st \<Rightarrow> clean_and_report to_parquet old st YEARS no_outputs)"

text \<open>The number of error lines of a kind.\<close>

definition has_type :: "string \<Rightarrow> int \<times> json \<Rightarrow> bool" where
  "has_type kind yl = (get1 (snd yl) ''type'' = Inr (JStr kind))"

definition count_kind :: "string \<Rightarrow> (int \<times> json) list \<Rightarrow> int" where
  "count_kind kind lines = int (length (filter (has_type kind) lines))"

text \<open>The counters agree with the error lines appended.\<close>

definition counters_agree :: "vstate \<Rightarrow> bool" where
  "counters_agree st =
     (invalid_schema (counters st) = count_kind ''invalid_schema'' (error_lines st) \<and>
      same_team (counters st) = count_kind ''same_team'' (error_lines st))"

definition counts_le :: "counts \<Rightarrow> counts \<Rightarrow> bool" where
  "counts_le a b = (invalid_schema a \<le> invalid_schema b \<and> same_team a \<le> same_team b)"

text \<open>What the two loops together do to one accepted record: it is validated, dumped
  to its line, read back and flattened. \<open>None\<close> stands for a rejected record.\<close>

definition validated_row :: "pydantic \<Rightarrow> json \<Rightarrow> (error + (string \<times> json) list) option" where
  "validated_row P rec =
     (case model_validate P rec of
        Inl msg \<Rightarrow> None
      | Inr g \<Rightarrow> Some (flatten (model_dump g)))"

section \<open>Adding unknown fields to a record\<close>

text \<open>\<^verbatim>\<open>d[k] = v\<close> on the association list of a dictionary.\<close>

fun dict_update :: "string \<Rightarrow> json \<Rightarrow> (string \<times> json) list \<Rightarrow> (string \<times> json) list" where
  "dict_update k v [] = [(k, v)]"
| "dict_update k v ((k', v') # kvs) =
     (if k' = k then (k, v) # kvs else (k', v') # dict_update k v kvs)"

definition add_fields :: "(string \<times> json) list \<Rightarrow> (string \<times> json) list \<Rightarrow> (string \<times> json) list" where
  "add_fields extras kvs = fold (\<lambda>kv. dict_update (fst kv) (snd kv)) extras kvs"

fun add_team_fields :: "(string \<times> json) list \<Rightarrow> json \<Rightarrow> json" where
  "add_team_fields extras (JObj kvs) = JObj (add_fields extras kvs)"
| "add_team_fields extras j = j"

text \<open>A record with the entries \<open>tx\<close> added at top level, \<open>hx\<close> added to its home
  team and \<open>vx\<close> added to its visitor team.\<close>

definition in_teams ::
  "(string \<times> json) list \<Rightarrow> (string \<times> json) list \<Rightarrow> string \<times> json \<Rightarrow> string \<times> json" where
  "in_teams hx vx kv =
     (if fst kv = ''home_team'' then (fst kv, add_team_fields hx (snd kv))
      else if fst kv = ''visitor_team'' then (fst kv, add_team_fields vx (snd kv))
      else kv)"

definition with_extras ::
  "(string \<times> json) list \<Rightarrow> (string \<times> json) list \<Rightarrow> (string \<times> json) list
     \<Rightarrow> (string \<times> json) list \<Rightarrow> (string \<times> json) list" where
  "with_extras tx hx vx kvs = add_fields tx (map (in_teams hx vx) kvs)"

definition unknown_to :: "string list \<Rightarrow> (string \<times> json) list \<Rightarrow> bool" where
  "unknown_to known extras = list_all (\<lambda>kv. fst kv \<notin> set known) extras"

section \<open>An instance of the library's conversions, and example records\<close>

text \<open>
  The instance used in the examples. It follows pydantic's default (lax) mode on the
  inputs it accepts: an \<^verbatim>\<open>int\<close> field takes an integer, a boolean (as 0 or 1) and a
  string of decimal digits; a \<^verbatim>\<open>str\<close> field takes a string; a \<^verbatim>\<open>bool\<close> field takes a
  boolean and the integers 0 and 1; a \<^verbatim>\<open>date\<close> field takes a string
  \<^verbatim>\<open>YYYY-MM-DD\<close> and a \<^verbatim>\<open>datetime\<close> field a string \<^verbatim>\<open>YYYY-MM-DDTHH:MM:SSZ\<close>, with or
  without \<^verbatim>\<open>.000\<close> before the \<^verbatim>\<open>Z\<close>. Every other input is rejected by this instance,
  also where pydantic accepts it (a signed string of digits, other ISO forms of a date
  or a time), so the instance says nothing about such inputs. Of the text of an error it
  keeps the header line and, for a \<^verbatim>\<open>ValueError\<close>, the line with the text raised; the
  echo of the input and the line with the link to the documentation are left out, so
  the reason string of an error record is shorter here than the one written.
\<close>

definition is_digit :: "char \<Rightarrow> bool" where
  "is_digit c = (CHR ''0'' \<le> c \<and> c \<le> CHR ''9'')"

definition digit_val :: "char \<Rightarrow> nat" where
  "digit_val c = of_char c - 48"

definition nat_of_string :: "string \<Rightarrow> nat option" where
  "nat_of_string s =
     (if s \<noteq> [] \<and> list_all is_digit s
      then Some (foldl (\<lambda>a c. 10 * a + digit_val c) 0 s)
      else None)"

fun lax_int :: "json \<Rightarrow> int option" where
  "lax_int (JInt n) = Some n"
| "lax_int (JBool b) = Some (if b then 1 else 0)"
| "lax_int (JStr s) = map_option int (nat_of_string s)"
| "lax_int _ = None"

fun lax_str :: "json \<Rightarrow> string option" where
  "lax_str (JStr s) = Some s"
| "lax_str _ = None"

fun lax_bool :: "json \<Rightarrow> bool option" where
  "lax_bool (JBool b) = Some b"
| "lax_bool (JInt n) = (if n = 0 then Some False else if n = 1 then Some True else None)"
| "lax_bool _ = None"

definition days_in_month :: "nat \<Rightarrow> nat \<Rightarrow> nat" where
  "days_in_month y m =
     (if m = 2 then (if y mod 4 = 0 \<and> (y mod 100 \<noteq> 0 \<or> y mod 400 = 0) then 29 else 28)
      else if m \<in> {4, 6, 9, 11} then 30 else 31)"

definition is_iso_date :: "string \<Rightarrow> bool" where
  "is_iso_date s =
     (case (nat_of_string (take 4 s), take 1 (drop 4 s), nat_of_string (take 2 (drop 5 s)),
            take 1 (drop 7 s), nat_of_string (drop 8 s)) of
        (Some y, a, Some m, b, Some d) \<Rightarrow>
          length s = 10 \<and> a = ''-'' \<and> b = ''-'' \<and> 1 \<le> y \<and> 1 \<le> m \<and> m \<le> 12 \<and>
          1 \<le> d \<and> d \<le> days_in_month y m
      | _ \<Rightarrow> False)"

definition is_iso_time :: "string \<Rightarrow> bool" where
  "is_iso_time s =
     (case (nat_of_string (take 2 s), take 1 (drop 2 s), nat_of_string (take 2 (drop 3 s)),
            take 1 (drop 5 s), nat_of_string (drop 6 s)) of
        (Some h, a, Some m, b, Some sec) \<Rightarrow>
          length s = 8 \<and> a = '':'' \<and> b = '':'' \<and> h < 24 \<and> m < 60 \<and> sec < 60
      | _ \<Rightarrow> False)"

fun lax_date :: "json \<Rightarrow> string option" where
  "lax_date (JStr s) = (if is_iso_date s then Some s else None)"
| "lax_date _ = None"

fun lax_datetime :: "json \<Rightarrow> string option" where
  "lax_datetime (JStr s) =
     (if is_iso_date (take 10 s) \<and> take 1 (drop 10 s) = ''T'' \<and> is_iso_time (take 8 (drop 11 s))
         \<and> (drop 19 s = ''Z'' \<or> drop 19 s = ''.000Z'')
      then Some (take 19 s @ ''Z'') else None)"
| "lax_datetime _ = None"

definition pydantic_lax :: pydantic where
  "pydantic_lax =
     \<lparr>int_of = lax_int, str_of = lax_str, bool_of = lax_bool,
      date_of = lax_date, datetime_of = lax_datetime,
      schema_text = (\<lambda>j. ''validation errors for Game''),
      value_error_text = (\<lambda>t j. ''1 validation error for Game'' @ [CHR 0x0A] @
                                  ''  Value error, '' @ t @ '' [type=value_error]'')\<rparr>"

definition team_a :: json where
  "team_a =
     JObj [(''id'', JInt 1), (''conference'', JStr ''East''), (''division'', JStr ''Atlantic''),
           (''city'', JStr ''Boston''), (''name'', JStr ''Celtics''),
           (''full_name'', JStr ''Boston Celtics''), (''abbreviation'', JStr ''BOS'')]"

definition team_b :: json where
  "team_b =
     JObj [(''id'', JInt 2), (''conference'', JStr ''West''), (''division'', JStr ''Pacific''),
           (''city'', JStr ''Los Angeles''), (''name'', JStr ''Lakers''),
           (''full_name'', JStr ''Los Angeles Lakers''), (''abbreviation'', JStr ''LAL'')]"

text \<open>A raw record with the given id and teams; the optional fields are absent.\<close>

definition raw_game :: "json \<Rightarrow> json \<Rightarrow> json \<Rightarrow> (string \<times> json) list" where
  "raw_game i home visitor =
     [(''id'', i), (''date'', JStr ''2021-10-19''), (''season'', JInt 2021),
      (''status'', JStr ''Final''), (''period'', JInt 4), (''time'', JStr ''Final''),
      (''postseason'', JBool False), (''home_team_score'', JInt 110),
      (''visitor_team_score'', JInt 90), (''datetime'', JStr ''2021-10-19T23:30:00.000Z''),
      (''home_team'', home), (''visitor_team'', visitor)]"

text \<open>Raw files for a run: 2020 holds a record without its required fields, 2021 a
  valid record and a record whose two teams are the same, the other years are empty.\<close>

definition example_raw :: "int \<Rightarrow> json option" where
  "example_raw y =
     (if y = 2020 then Some (JList [JObj [(''id'', JInt 9)]])
      else if y = 2021 then
        Some (JList [JObj (raw_game (JInt 7) team_a team_b), JObj (raw_game (JInt 8) team_a team_a)])
      else Some (JList []))"

definition no_files :: "int \<Rightarrow> json list option" where
  "no_files y = None"

text \<open>Every clean table is written.\<close>

definition parquet_ok :: "(string \<times> json) list list \<Rightarrow> error option" where
  "parquet_ok rows = None"

section \<open>Properties of flatten\<close>

lemma flatten_dict_row:
  assumes h: "dict_get (JObj kvs) ''home_team'' (JObj []) = Inr (JObj h)"
      and v: "dict_get (JObj kvs) ''visitor_team'' (JObj []) = Inr (JObj v)"
  shows "flatten (JObj kvs) = Inr
            [(''game_id'', py_lookup kvs ''id'' JNull),
             (''date'', py_lookup kvs ''date'' JNull),
             (''season'', py_lookup kvs ''season'' JNull),
             (''status'', py_lookup kvs ''status'' JNull),
             (''periode'', py_lookup kvs ''period'' JNull),
             (''postseason'', py_lookup kvs ''postseason'' JNull),
             (''home_team_id'', py_lookup h ''id'' JNull),
             (''home_team_full_name'', py_lookup h ''full_name'' JNull),
             (''home_team_score'', py_lookup kvs ''home_team_score'' JNull),
             (''visitor_team_id'', py_lookup v ''id'' JNull),
             (''visitor_team_full_name'', py_lookup v ''full_name'' JNull),
             (''visitor_team_score'', py_lookup kvs ''visitor_team_score'' JNull)]"
  unfolding flatten_def h v by (simp add: get1_def)

lemma team_entry_dict:
  assumes "team_entry_ok (map_of kvs k)"
  obtains t where "dict_get (JObj kvs) k (JObj []) = Inr (JObj t)"
    and "map_of kvs k = None \<longrightarrow> t = []"
  using assms by (cases "map_of kvs k" rule: team_entry_ok.cases) (simp_all add: py_lookup_def)

lemma py_lookup_absent: "map_of kvs k = None \<Longrightarrow> py_lookup kvs k d = d"
  by (simp add: py_lookup_def)

lemma py_lookup_empty: "py_lookup [] k d = d"
  by (simp add: py_lookup_def)

lemma flatten_dict_teams_ok:
  assumes "team_entry_ok (map_of kvs ''home_team'')"
      and "team_entry_ok (map_of kvs ''visitor_team'')"
  shows "\<exists>row. flatten (JObj kvs) = Inr row \<and> map fst row = FLAT_COLUMNS \<and>
           (\<forall>(k, c) \<in> set SCALAR_COLUMNS. map_of kvs k = None \<longrightarrow> map_of row c = Some JNull) \<and>
           (map_of kvs ''home_team'' = None \<longrightarrow>
              map_of row ''home_team_id'' = Some JNull \<and>
              map_of row ''home_team_full_name'' = Some JNull) \<and>
           (map_of kvs ''visitor_team'' = None \<longrightarrow>
              map_of row ''visitor_team_id'' = Some JNull \<and>
              map_of row ''visitor_team_full_name'' = Some JNull)"
proof -
  obtain h where h: "dict_get (JObj kvs) ''home_team'' (JObj []) = Inr (JObj h)"
    and h0: "map_of kvs ''home_team'' = None \<longrightarrow> h = []"
    by (rule team_entry_dict [OF assms(1)])
  obtain v where v: "dict_get (JObj kvs) ''visitor_team'' (JObj []) = Inr (JObj v)"
    and v0: "map_of kvs ''visitor_team'' = None \<longrightarrow> v = []"
    by (rule team_entry_dict [OF assms(2)])
  note row = flatten_dict_row [OF h v]
  let ?row = "[(''game_id'', py_lookup kvs ''id'' JNull),
             (''date'', py_lookup kvs ''date'' JNull),
             (''season'', py_lookup kvs ''season'' JNull),
             (''status'', py_lookup kvs ''status'' JNull),
             (''periode'', py_lookup kvs ''period'' JNull),
             (''postseason'', py_lookup kvs ''postseason'' JNull),
             (''home_team_id'', py_lookup h ''id'' JNull),
             (''home_team_full_name'', py_lookup h ''full_name'' JNull),
             (''home_team_score'', py_lookup kvs ''home_team_score'' JNull),
             (''visitor_team_id'', py_lookup v ''id'' JNull),
             (''visitor_team_full_name'', py_lookup v ''full_name'' JNull),
             (''visitor_team_score'', py_lookup kvs ''visitor_team_score'' JNull)]"
  have c1: "map fst ?row = FLAT_COLUMNS" by (simp add: FLAT_COLUMNS_def)
  have c2: "\<forall>(k, c) \<in> set SCALAR_COLUMNS. map_of kvs k = None \<longrightarrow> map_of ?row c = Some JNull"
    by (simp add: SCALAR_COLUMNS_def py_lookup_absent)
  have c3: "map_of kvs ''home_team'' = None \<longrightarrow>
              map_of ?row ''home_team_id'' = Some JNull \<and>
              map_of ?row ''home_team_full_name'' = Some JNull"
    using h0 by (simp add: py_lookup_empty)
  have c4: "map_of kvs ''visitor_team'' = None \<longrightarrow>
              map_of ?row ''visitor_team_id'' = Some JNull \<and>
              map_of ?row ''visitor_team_full_name'' = Some JNull"
    using v0 by (simp add: py_lookup_empty)
  show ?thesis
    by (rule exI [of _ ?row]) (intro conjI row c1 c2 c3 c4)
qed

lemma non_dict_get1:
  assumes "\<forall>t. j \<noteq> JObj t"
  shows "get1 j k = Inl AttributeError"
  using assms by (cases j) (simp_all add: get1_def)

lemma bad_team_entry:
  assumes "\<not> team_entry_ok (map_of kvs k)"
  obtains j where "dict_get (JObj kvs) k (JObj []) = Inr j" and "\<forall>t. j \<noteq> JObj t"
  using assms
  by (cases "map_of kvs k" rule: team_entry_ok.cases) (simp_all add: py_lookup_def)

lemma any_team_entry: "\<exists>j. dict_get (JObj kvs) k (JObj []) = Inr j"
  by simp

lemma flatten_bad_home_team:
  assumes "\<not> team_entry_ok (map_of kvs ''home_team'')"
  shows "flatten (JObj kvs) = Inl AttributeError"
proof -
  from assms obtain h where h: "dict_get (JObj kvs) ''home_team'' (JObj []) = Inr h"
    and n: "\<forall>t. h \<noteq> JObj t"
    by (rule bad_team_entry)
  obtain v where v: "dict_get (JObj kvs) ''visitor_team'' (JObj []) = Inr v"
    using any_team_entry by blast
  have g: "\<And>k. get1 (JObj kvs) k = Inr (py_lookup kvs k JNull)" by (simp add: get1_def)
  show ?thesis
    unfolding flatten_def h v by (simp add: g non_dict_get1 [OF n])
qed

lemma flatten_bad_visitor_team:
  assumes "team_entry_ok (map_of kvs ''home_team'')"
      and "\<not> team_entry_ok (map_of kvs ''visitor_team'')"
  shows "flatten (JObj kvs) = Inl AttributeError"
proof -
  obtain h where h: "dict_get (JObj kvs) ''home_team'' (JObj []) = Inr (JObj h)"
    and "map_of kvs ''home_team'' = None \<longrightarrow> h = []"
    by (rule team_entry_dict [OF assms(1)])
  from assms(2) obtain v where v: "dict_get (JObj kvs) ''visitor_team'' (JObj []) = Inr v"
    and n: "\<forall>t. v \<noteq> JObj t"
    by (rule bad_team_entry)
  have g: "\<And>k. get1 (JObj kvs) k = Inr (py_lookup kvs k JNull)" by (simp add: get1_def)
  have t: "\<And>k. get1 (JObj h) k = Inr (py_lookup h k JNull)" by (simp add: get1_def)
  show ?thesis
    unfolding flatten_def h v by (simp add: g t non_dict_get1 [OF n])
qed

text \<open>C10 (as amended): on a dictionary whose \<^verbatim>\<open>home_team\<close> and \<^verbatim>\<open>visitor_team\<close>
  entries are each absent or a dictionary, \<^verbatim>\<open>flatten\<close> does not raise; it returns a row
  with exactly the twelve fixed columns, and a column whose source key is absent (at top
  level, or because the whole team entry is absent) holds \<^verbatim>\<open>None\<close>. On a dictionary in
  which one of the two entries is present and is not a dictionary, whatever its value,
  \<^verbatim>\<open>flatten\<close> raises \<^verbatim>\<open>AttributeError\<close>.\<close>

theorem flatten_total_on_dict_teams:
  "(team_entry_ok (map_of kvs ''home_team'') \<and> team_entry_ok (map_of kvs ''visitor_team'') \<longrightarrow>
      (\<exists>row. flatten (JObj kvs) = Inr row \<and> map fst row = FLAT_COLUMNS \<and>
           (\<forall>(k, c) \<in> set SCALAR_COLUMNS. map_of kvs k = None \<longrightarrow> map_of row c = Some JNull) \<and>
           (map_of kvs ''home_team'' = None \<longrightarrow>
              map_of row ''home_team_id'' = Some JNull \<and>
              map_of row ''home_team_full_name'' = Some JNull) \<and>
           (map_of kvs ''visitor_team'' = None \<longrightarrow>
              map_of row ''visitor_team_id'' = Some JNull \<and>
              map_of row ''visitor_team_full_name'' = Some JNull))) \<and>
   (\<not> team_entry_ok (map_of kvs ''home_team'') \<or> \<not> team_entry_ok (map_of kvs ''visitor_team'') \<longrightarrow>
      flatten (JObj kvs) = Inl AttributeError)"
proof (intro conjI impI)
  assume "team_entry_ok (map_of kvs ''home_team'') \<and> team_entry_ok (map_of kvs ''visitor_team'')"
  then have a: "team_entry_ok (map_of kvs ''home_team'')"
    and b: "team_entry_ok (map_of kvs ''visitor_team'')" by simp_all
  show "\<exists>row. flatten (JObj kvs) = Inr row \<and> map fst row = FLAT_COLUMNS \<and>
           (\<forall>(k, c) \<in> set SCALAR_COLUMNS. map_of kvs k = None \<longrightarrow> map_of row c = Some JNull) \<and>
           (map_of kvs ''home_team'' = None \<longrightarrow>
              map_of row ''home_team_id'' = Some JNull \<and>
              map_of row ''home_team_full_name'' = Some JNull) \<and>
           (map_of kvs ''visitor_team'' = None \<longrightarrow>
              map_of row ''visitor_team_id'' = Some JNull \<and>
              map_of row ''visitor_team_full_name'' = Some JNull)"
    by (rule flatten_dict_teams_ok [OF a b])
next
  assume c: "\<not> team_entry_ok (map_of kvs ''home_team'') \<or> \<not> team_entry_ok (map_of kvs ''visitor_team'')"
  show "flatten (JObj kvs) = Inl AttributeError"
  proof (cases "team_entry_ok (map_of kvs ''home_team'')")
    case True
    with c have "\<not> team_entry_ok (map_of kvs ''visitor_team'')" by simp
    with True show ?thesis by (rule flatten_bad_visitor_team)
  next
    case False
    then show ?thesis by (rule flatten_bad_home_team)
  qed
qed

theorem flatten_total_on_dict_teams_witness:
  "team_entry_ok (map_of [(''id'', JInt 7)] ''home_team'') \<and>
   team_entry_ok (map_of [(''id'', JInt 7)] ''visitor_team'') \<and>
   (\<exists>row. flatten (JObj [(''id'', JInt 7)]) = Inr row \<and> map fst row = FLAT_COLUMNS \<and>
      map_of row ''home_team_id'' = Some JNull \<and> map_of row ''date'' = Some JNull) \<and>
   team_entry_ok (map_of [(''visitor_team'', JStr ''LAL'')] ''home_team'') \<and>
   \<not> team_entry_ok (map_of [(''visitor_team'', JStr ''LAL'')] ''visitor_team'') \<and>
   flatten (JObj [(''visitor_team'', JStr ''LAL'')]) = Inl AttributeError"
proof -
  have a: "team_entry_ok (map_of [(''id'', JInt 7)] ''home_team'')" by simp
  have b: "team_entry_ok (map_of [(''id'', JInt 7)] ''visitor_team'')" by simp
  have d: "(''date'', ''date'') \<in> set SCALAR_COLUMNS" by (simp add: SCALAR_COLUMNS_def)
  have e: "map_of [(''id'', JInt 7)] ''date'' = None" by simp
  have f: "map_of [(''id'', JInt 7)] ''home_team'' = None" by simp
  have ab: "team_entry_ok (map_of [(''id'', JInt 7)] ''home_team'') \<and>
            team_entry_ok (map_of [(''id'', JInt 7)] ''visitor_team'')"
    using a b by (rule conjI)
  from flatten_total_on_dict_teams [where kvs = "[(''id'', JInt 7)]", THEN conjunct1, rule_format, OF ab]
  obtain row
    where r: "flatten (JObj [(''id'', JInt 7)]) = Inr row" and c: "map fst row = FLAT_COLUMNS"
      and s: "\<forall>(k, c) \<in> set SCALAR_COLUMNS. map_of [(''id'', JInt 7)] k = None \<longrightarrow> map_of row c = Some JNull"
      and t: "map_of [(''id'', JInt 7)] ''home_team'' = None \<longrightarrow>
              map_of row ''home_team_id'' = Some JNull \<and>
              map_of row ''home_team_full_name'' = Some JNull"
    by (elim exE conjE)
  from s d e have "map_of row ''date'' = Some JNull" by (rule_tac bspec [OF s d, simplified, rule_format])
  with a b r c t f have first:
    "\<exists>row. flatten (JObj [(''id'', JInt 7)]) = Inr row \<and> map fst row = FLAT_COLUMNS \<and>
      map_of row ''home_team_id'' = Some JNull \<and> map_of row ''date'' = Some JNull"
    by (intro conjI exI [of _ row]) simp_all
  have g: "team_entry_ok (map_of [(''visitor_team'', JStr ''LAL'')] ''home_team'')" by simp
  have h: "\<not> team_entry_ok (map_of [(''visitor_team'', JStr ''LAL'')] ''visitor_team'')" by simp
  have "\<not> team_entry_ok (map_of [(''visitor_team'', JStr ''LAL'')] ''home_team'') \<or>
        \<not> team_entry_ok (map_of [(''visitor_team'', JStr ''LAL'')] ''visitor_team'')"
    using h by (rule disjI2)
  with flatten_total_on_dict_teams [where kvs = "[(''visitor_team'', JStr ''LAL'')]", THEN conjunct2]
  have second: "flatten (JObj [(''visitor_team'', JStr ''LAL'')]) = Inl AttributeError"
    by (rule mp)
  from a b first g h second show ?thesis by (intro conjI)
qed

text \<open>C10 (as stated) fails: \<^verbatim>\<open>flatten\<close> is not total on dictionaries. When the
  \<^verbatim>\<open>home_team\<close> entry is present but is \<^verbatim>\<open>None\<close>, \<^verbatim>\<open>home_team.get("id")\<close> raises.\<close>

theorem flatten_raises_on_null_team:
  "flatten (JObj [(''id'', JInt 7), (''home_team'', JNull)]) = Inl AttributeError"
  by (simp add: flatten_def get1_def py_lookup_def)

section \<open>Properties of the paginated fetch\<close>

lemma n_requests_append [simp]: "n_requests (a @ b) = n_requests a + n_requests b"
  by (simp add: n_requests_def)

lemma n_requests_simps [simp]:
  "n_requests [] = 0"
  "n_requests (Request p # l) = Suc (n_requests l)"
  "n_requests (Sleep d # l) = n_requests l"
  by (simp_all add: n_requests_def)

lemma good_pageD:
  assumes "good_page r"
  obtains pl x xs cur where "status_code r \<noteq> 429" "\<not> http_error r" "payload r = Some pl"
    "dict_get pl ''data'' (JList []) = Inr (JList (x # xs))" "next_cursor_of pl = Inr cur" "truthy cur"
proof -
  from assms obtain items cur where p: "page_of r = Some (items, cur)"
    and i: "nonempty_list items" and c: "truthy cur"
    by (auto simp: good_page_def split: option.splits)
  from i obtain x xs where items: "items = JList (x # xs)"
    by (cases items rule: nonempty_list.cases) auto
  from p show thesis
    using that c items
    by (auto simp: page_of_def split: if_splits option.splits sum.splits)
qed

lemma pagination_good:
  assumes good: "\<And>n p. good_page (srv n p)"
  shows "truthy cur \<Longrightarrow> page \<le> mp \<Longrightarrow>
         \<exists>trace' games'. pagination mp srv y page cur games n trace = (trace', Inr (mp, games')) \<and>
            n_requests trace' = n_requests trace + (mp - page)"
proof (induction "mp - page" arbitrary: page cur games n trace)
  case 0
  then have "page = mp" by simp
  then show ?case by (subst pagination.simps) simp
next
  case (Suc d)
  then have lt: "page < mp" by simp
  let ?p = "Params 100 y (Some cur)"
  from good [of n ?p] obtain pl x xs cur' where
    r: "status_code (srv n ?p) \<noteq> 429" "\<not> http_error (srv n ?p)" "payload (srv n ?p) = Some pl"
       "dict_get pl ''data'' (JList []) = Inr (JList (x # xs))" "next_cursor_of pl = Inr cur'"
    and t: "truthy cur'"
    by (rule good_pageD)
  have step: "pagination mp srv y page cur games n trace =
              pagination mp srv y (page + 1) cur' (games @ x # xs) (n + 1) (trace @ [Request ?p, Sleep 12])"
    using Suc.prems(1) lt r by (subst pagination.simps) (simp add: list_extend_def)
  have d: "d = mp - (page + 1)" using Suc.hyps(2) by simp
  have le: "page + 1 \<le> mp" using lt by simp
  from Suc.hyps(1) [OF d t le, of "games @ x # xs" "n + 1" "trace @ [Request ?p, Sleep 12]"]
  show ?case unfolding step using lt by auto
qed

text \<open>C6 (as amended): when every response is a successful page with a non-empty item
  list and a cursor that Python takes as true, and the page cap is at least 1, the fetch
  of a season issues exactly as many requests as the cap allows and ends normally, with
  the page counter at the cap and the games collected so far.\<close>

theorem fetch_stops_at_max_pages:
  assumes "\<forall>n p. good_page (srv n p)" and "1 \<le> mp"
  shows "\<exists>trace games. fetch_season mp srv y = (trace, Inr (mp, games)) \<and> n_requests trace = mp"
proof -
  let ?p = "Params 100 y None"
  from assms(1) have good: "\<And>n p. good_page (srv n p)" by simp
  from good [of 0 ?p] obtain pl x xs cur where
    r: "status_code (srv 0 ?p) \<noteq> 429" "\<not> http_error (srv 0 ?p)" "payload (srv 0 ?p) = Some pl"
       "dict_get pl ''data'' (JList []) = Inr (JList (x # xs))" "next_cursor_of pl = Inr cur"
    and t: "truthy cur"
    by (rule good_pageD)
  have first: "fetch_season mp srv y = pagination mp srv y 1 cur (x # xs) 1 [Request ?p]"
    using r by (simp add: fetch_season_def list_extend_def)
  from pagination_good [OF good t assms(2), where y = y and games = "x # xs" and n = 1
      and trace = "[Request ?p]"]
  show ?thesis unfolding first using assms(2) by auto
qed

lemma good_endless: "good_page (endless_server n p)"
  by (simp add: good_page_def page_of_def endless_server_def ok_response_def http_error_def
      next_cursor_of_def get1_def py_lookup_def)

theorem fetch_stops_at_max_pages_witness:
  "(\<forall>n p. good_page (endless_server n p)) \<and> (1::nat) \<le> 3 \<and> 1 \<le> MAX_PAGES \<and>
   (\<exists>trace games. fetch_season 3 endless_server 2021 = (trace, Inr (3, games)) \<and> n_requests trace = 3) \<and>
   (\<exists>trace games. fetch_season MAX_PAGES endless_server 2021 = (trace, Inr (60, games)) \<and>
      n_requests trace = 60)"
proof -
  have a: "\<forall>n p. good_page (endless_server n p)" by (simp add: good_endless)
  have b: "(1::nat) \<le> 3" by simp
  have c: "1 \<le> MAX_PAGES" by (simp add: MAX_PAGES_def)
  have d: "MAX_PAGES = 60" by (simp add: MAX_PAGES_def)
  from fetch_stops_at_max_pages [OF a b, of 2021] fetch_stops_at_max_pages [OF a c, of 2021]
    a b c show ?thesis unfolding d by simp
qed

lemma nonnull_zero: "nonnull_page (zero_cursor_server n p)"
  by (simp add: nonnull_page_def page_of_def zero_cursor_server_def ok_response_def http_error_def
      next_cursor_of_def get1_def py_lookup_def)

text \<open>C6 (as stated) fails: the loop tests the truth value of the cursor, so a service
  whose pages are non-empty and whose cursor is the non-null value 0 (see
  \<open>nonnull_zero\<close>) is asked for one page only, with a page cap of 3.\<close>

theorem zero_cursor_stops_after_one_page:
  "fetch_season 3 zero_cursor_server 2021 =
     ([Request (Params 100 2021 None)], Inr (1, [JObj [(''id'', JInt 0)]])) \<and>
   n_requests (fst (fetch_season 3 zero_cursor_server 2021)) \<noteq> 3"
  by (simp add: fetch_season_def zero_cursor_server_def ok_response_def
      http_error_def next_cursor_of_def get1_def py_lookup_def list_extend_def pagination.simps)

lemma first_request_retried_once:
  assumes "status_code (srv 0 (Params 100 y None)) = 429"
      and "http_error (srv 1 (Params 100 y None))"
  shows "fetch_season mp srv y =
           ([Request (Params 100 y None), Sleep 12, Request (Params 100 y None)], Inl HTTPError)"
  using assms by (simp add: fetch_season_def Let_def)

lemma pagination_429_step:
  assumes "status_code (srv n (Params 100 y (Some cur))) = 429" "truthy cur" "page < mp"
  shows "pagination mp srv y page cur games n trace =
         pagination mp srv y (page + 1) cur games (n + 1)
           (trace @ [Request (Params 100 y (Some cur)), Sleep 12])"
  using assms by (subst pagination.simps) simp

lemma pagination_429_repeat:
  "\<forall>i<k. status_code (srv (n + i) (Params 100 y (Some cur))) = 429 \<Longrightarrow> truthy cur \<Longrightarrow>
   page + k \<le> mp \<Longrightarrow>
   pagination mp srv y page cur games n trace =
   pagination mp srv y (page + k) cur games (n + k)
     (trace @ concat (replicate k [Request (Params 100 y (Some cur)), Sleep 12]))"
proof (induction k arbitrary: page n trace)
  case 0
  then show ?case by simp
next
  case (Suc k)
  from Suc.prems(1) have s0: "status_code (srv n (Params 100 y (Some cur))) = 429"
    by (metis add.right_neutral zero_less_Suc)
  from Suc.prems(1) have rest: "\<forall>i<k. status_code (srv ((n + 1) + i) (Params 100 y (Some cur))) = 429"
    by (metis Suc_less_eq add_Suc_right add_Suc_shift Suc_eq_plus1)
  from Suc.prems(3) have lt: "page < mp" and le: "(page + 1) + k \<le> mp" by simp_all
  have "pagination mp srv y page cur games n trace =
        pagination mp srv y (page + 1) cur games (n + 1)
          (trace @ [Request (Params 100 y (Some cur)), Sleep 12])"
    using s0 Suc.prems(2) lt by (rule pagination_429_step)
  also have "\<dots> = pagination mp srv y ((page + 1) + k) cur games ((n + 1) + k)
          ((trace @ [Request (Params 100 y (Some cur)), Sleep 12]) @
             concat (replicate k [Request (Params 100 y (Some cur)), Sleep 12]))"
    using rest Suc.prems(2) le by (rule Suc.IH)
  finally show ?case by (simp add: add.assoc)
qed

lemma pagination_done: "pagination mp srv y mp cur games n trace = (trace, Inr (mp, games))"
  by (subst pagination.simps) simp

lemma pagination_trace:
  "\<exists>evs. fst (pagination mp srv y page cur games n trace) = trace @ evs \<and>
         list_all (\<lambda>e. \<not> cursorless e) evs"
proof (induction mp srv y page cur games n trace rule: pagination.induct)
  case (1 mp srv y page cur games n trace)
  let ?p = "Params 100 y (Some cur)"
  show ?case
  proof (cases "truthy cur \<and> page < mp")
    case False
    show ?thesis by (subst pagination.simps, subst if_not_P [OF False]) simp
  next
    case c: True
    show ?thesis
    proof (cases "status_code (srv n ?p) = 429")
      case True
      from "1.IH"(1) [OF c True] obtain evs where
        "fst (pagination mp srv y (page + 1) cur games (n + 1) (trace @ [Request ?p, Sleep 12])) =
           (trace @ [Request ?p, Sleep 12]) @ evs" and "list_all (\<lambda>e. \<not> cursorless e) evs"
        by blast
      then show ?thesis
        using c True
        by (subst pagination.simps) (auto intro!: exI [of _ "Request ?p # Sleep 12 # evs"])
    next
      case s: False
      show ?thesis
      proof (cases "http_error (srv n ?p)")
        case True
        with c s show ?thesis by (subst pagination.simps) simp
      next
        case h: False
        show ?thesis
        proof (cases "payload (srv n ?p)")
          case None
          with c s h show ?thesis by (subst pagination.simps) simp
        next
          case (Some pl)
          show ?thesis
          proof (cases "dict_get pl ''data'' (JList [])")
            case (Inl e)
            with c s h Some show ?thesis by (subst pagination.simps) simp
          next
            case (Inr items)
            show ?thesis
            proof (cases "truthy items")
              case False
              with c s h Some Inr show ?thesis by (subst pagination.simps) simp
            next
              case t: True
              show ?thesis
              proof (cases "next_cursor_of pl")
                case (Inl e)
                with c s h Some Inr t show ?thesis by (subst pagination.simps) simp
              next
                case nc: (Inr cur')
                show ?thesis
                proof (cases "list_extend games items")
                  case (Inl e)
                  with c s h Some Inr t nc show ?thesis by (subst pagination.simps) simp
                next
                  case ex: (Inr games')
                  have nt: "\<not> \<not> truthy items" using t by simp
                  from "1.IH"(2) [OF c s h Some Inr nt nc ex] obtain evs where
                    "fst (pagination mp srv y (page + 1) cur' games' (n + 1)
                            (trace @ [Request ?p, Sleep 12])) =
                       (trace @ [Request ?p, Sleep 12]) @ evs"
                    and "list_all (\<lambda>e. \<not> cursorless e) evs"
                    by blast
                  then show ?thesis
                    using c s h Some Inr t nc ex
                    by (subst pagination.simps)
                       (auto intro!: exI [of _ "Request ?p # Sleep 12 # evs"])
                qed
              qed
            qed
          qed
        qed
      qed
    qed
  qed
qed

lemma first_request_one_retry:
  assumes "status_code (srv 0 (Params 100 y None)) = 429"
  shows "\<exists>evs. fst (fetch_season mp srv y) =
                 [Request (Params 100 y None), Sleep 12, Request (Params 100 y None)] @ evs \<and>
               list_all (\<lambda>e. \<not> cursorless e) evs"
proof -
  let ?t = "[Request (Params 100 y None), Sleep 12, Request (Params 100 y None)]"
  have "fst (fetch_season mp srv y) = ?t \<or>
        (\<exists>cur games. fetch_season mp srv y = pagination mp srv y 1 cur games 2 ?t)"
    using assms
    by (auto simp: fetch_season_def Let_def split: option.splits sum.splits)
  then show ?thesis
  proof
    assume "fst (fetch_season mp srv y) = ?t"
    then show ?thesis by simp
  next
    assume "\<exists>cur games. fetch_season mp srv y = pagination mp srv y 1 cur games 2 ?t"
    then obtain cur games where "fetch_season mp srv y = pagination mp srv y 1 cur games 2 ?t"
      by blast
    with pagination_trace [of mp srv y 1 cur games 2 ?t] show ?thesis by simp
  qed
qed

lemma first_request_retry_page:
  assumes "status_code (srv 0 (Params 100 y None)) = 429"
      and "page_of (srv 1 (Params 100 y None)) = Some (items, cur)"
      and "list_extend [] items = Inr games"
  shows "fetch_season mp srv y =
           pagination mp srv y 1 cur games 2
             [Request (Params 100 y None), Sleep 12, Request (Params 100 y None)]"
  using assms
  by (auto simp: fetch_season_def Let_def page_of_def split: option.splits sum.splits if_splits)

text \<open>C2 (as amended): on the first request of a season (the one without a cursor) a
  429 is followed by a sleep of 12 and exactly one retry of the same request, and when
  the retry has an error status too (429 included) \<^verbatim>\<open>HTTPError\<close> leaves the fetch with
  no third attempt. Whatever the retry returns, no further request without a cursor is
  issued; when it returns a page, the fetch goes on from that page. Inside the
  pagination loop a 429 is followed by a sleep of 12 and
  \<^verbatim>\<open>continue\<close>: the same cursor is requested again for as long as the page counter,
  which every attempt increments, is below the cap; \<open>k\<close> consecutive 429 answers give
  \<open>k\<close> attempts, and when they exhaust the page budget the loop ends normally, without
  an error.\<close>

theorem rate_limit_handling:
  "(status_code (srv 0 (Params 100 y None)) = 429 \<and> http_error (srv 1 (Params 100 y None)) \<longrightarrow>
      fetch_season mp srv y =
        ([Request (Params 100 y None), Sleep 12, Request (Params 100 y None)], Inl HTTPError)) \<and>
   ((\<forall>i<k. status_code (srv (n + i) (Params 100 y (Some cur))) = 429) \<and> truthy cur \<and>
      page + k \<le> mp \<longrightarrow>
      pagination mp srv y page cur games n trace =
      pagination mp srv y (page + k) cur games (n + k)
        (trace @ concat (replicate k [Request (Params 100 y (Some cur)), Sleep 12]))) \<and>
   ((\<forall>i<k. status_code (srv (n + i) (Params 100 y (Some cur))) = 429) \<and> truthy cur \<and>
      page + k = mp \<longrightarrow>
      pagination mp srv y page cur games n trace =
        (trace @ concat (replicate k [Request (Params 100 y (Some cur)), Sleep 12]),
         Inr (mp, games))) \<and>
   (status_code (srv 0 (Params 100 y None)) = 429 \<longrightarrow>
      (\<exists>evs. fst (fetch_season mp srv y) =
                [Request (Params 100 y None), Sleep 12, Request (Params 100 y None)] @ evs \<and>
              list_all (\<lambda>e. \<not> cursorless e) evs)) \<and>
   (status_code (srv 0 (Params 100 y None)) = 429 \<and>
      page_of (srv 1 (Params 100 y None)) = Some (items, c1) \<and>
      list_extend [] items = Inr g1 \<longrightarrow>
      fetch_season mp srv y =
        pagination mp srv y 1 c1 g1 2
          [Request (Params 100 y None), Sleep 12, Request (Params 100 y None)])"
proof (intro conjI impI)
  assume "status_code (srv 0 (Params 100 y None)) = 429 \<and> http_error (srv 1 (Params 100 y None))"
  then show "fetch_season mp srv y =
        ([Request (Params 100 y None), Sleep 12, Request (Params 100 y None)], Inl HTTPError)"
    by (simp add: first_request_retried_once)
next
  assume "(\<forall>i<k. status_code (srv (n + i) (Params 100 y (Some cur))) = 429) \<and> truthy cur \<and>
      page + k \<le> mp"
  then show "pagination mp srv y page cur games n trace =
      pagination mp srv y (page + k) cur games (n + k)
        (trace @ concat (replicate k [Request (Params 100 y (Some cur)), Sleep 12]))"
    using pagination_429_repeat by blast
next
  assume a: "(\<forall>i<k. status_code (srv (n + i) (Params 100 y (Some cur))) = 429) \<and> truthy cur \<and>
      page + k = mp"
  then have "pagination mp srv y page cur games n trace =
      pagination mp srv y (page + k) cur games (n + k)
        (trace @ concat (replicate k [Request (Params 100 y (Some cur)), Sleep 12]))"
    using pagination_429_repeat [where k = k and srv = srv and n = n and y = y and cur = cur
        and page = page and mp = mp and games = games and trace = trace] by simp
  with a show "pagination mp srv y page cur games n trace =
        (trace @ concat (replicate k [Request (Params 100 y (Some cur)), Sleep 12]),
         Inr (mp, games))"
    by (simp add: pagination_done)
next
  assume "status_code (srv 0 (Params 100 y None)) = 429"
  then show "\<exists>evs. fst (fetch_season mp srv y) =
                [Request (Params 100 y None), Sleep 12, Request (Params 100 y None)] @ evs \<and>
              list_all (\<lambda>e. \<not> cursorless e) evs"
    by (rule first_request_one_retry)
next
  assume "status_code (srv 0 (Params 100 y None)) = 429 \<and>
      page_of (srv 1 (Params 100 y None)) = Some (items, c1) \<and>
      list_extend [] items = Inr g1"
  then show "fetch_season mp srv y =
        pagination mp srv y 1 c1 g1 2
          [Request (Params 100 y None), Sleep 12, Request (Params 100 y None)]"
    by (simp add: first_request_retry_page)
qed

theorem rate_limit_handling_witness:
  "status_code (always_limited_server 0 (Params 100 2021 None)) = 429 \<and>
   http_error (always_limited_server 1 (Params 100 2021 None)) \<and>
   fetch_season MAX_PAGES always_limited_server 2021 =
     ([Request (Params 100 2021 None), Sleep 12, Request (Params 100 2021 None)], Inl HTTPError) \<and>
   status_code (always_limited_server 1 (Params 100 2021 (Some (JInt 5)))) = 429 \<and>
   status_code (always_limited_server 2 (Params 100 2021 (Some (JInt 5)))) = 429 \<and>
   truthy (JInt 5) \<and> 1 + 2 \<le> (3::nat) \<and>
   pagination 3 always_limited_server 2021 1 (JInt 5) [] 1 [] =
     ([Request (Params 100 2021 (Some (JInt 5))), Sleep 12,
       Request (Params 100 2021 (Some (JInt 5))), Sleep 12], Inr (3, [])) \<and>
   status_code (once_limited_server 0 (Params 100 2021 None)) = 429 \<and>
   fetch_season MAX_PAGES once_limited_server 2021 =
     ([Request (Params 100 2021 None), Sleep 12, Request (Params 100 2021 None)],
      Inr (1, [JObj [(''id'', JInt 1)]]))"
proof -
  have a: "status_code (always_limited_server 0 (Params 100 2021 None)) = 429 \<and>
           http_error (always_limited_server 1 (Params 100 2021 None))"
    by (simp add: always_limited_server_def status_response_def http_error_def)
  have b: "(\<forall>i<2. status_code (always_limited_server (1 + i) (Params 100 2021 (Some (JInt 5)))) = 429)
           \<and> truthy (JInt 5) \<and> 1 + 2 = (3::nat)"
    by (simp add: always_limited_server_def status_response_def)
  have b': "1 + 2 \<le> (3::nat)" by simp
  have c: "concat (replicate 2 [Request (Params 100 2021 (Some (JInt 5))), Sleep 12]) =
          [Request (Params 100 2021 (Some (JInt 5))), Sleep 12,
           Request (Params 100 2021 (Some (JInt 5))), Sleep 12]"
    by (simp add: numeral_2_eq_2)
  from rate_limit_handling [where srv = always_limited_server and y = 2021 and mp = MAX_PAGES]
  have d: "fetch_season MAX_PAGES always_limited_server 2021 =
     ([Request (Params 100 2021 None), Sleep 12, Request (Params 100 2021 None)], Inl HTTPError)"
    using a by blast
  from rate_limit_handling [where srv = always_limited_server and y = 2021 and mp = 3
      and k = 2 and n = 1 and cur = "JInt 5" and page = 1 and games = "[]" and trace = "[]"]
  have "pagination 3 always_limited_server 2021 1 (JInt 5) [] 1 [] =
     ([] @ concat (replicate 2 [Request (Params 100 2021 (Some (JInt 5))), Sleep 12]), Inr (3, []))"
    using b by blast
  then have e: "pagination 3 always_limited_server 2021 1 (JInt 5) [] 1 [] =
     ([Request (Params 100 2021 (Some (JInt 5))), Sleep 12,
       Request (Params 100 2021 (Some (JInt 5))), Sleep 12], Inr (3, []))"
    unfolding c by simp
  have f: "status_code (always_limited_server 1 (Params 100 2021 (Some (JInt 5)))) = 429"
    "status_code (always_limited_server 2 (Params 100 2021 (Some (JInt 5)))) = 429"
    by (simp_all add: always_limited_server_def status_response_def)
  have g: "status_code (once_limited_server 0 (Params 100 2021 None)) = 429"
    by (simp add: once_limited_server_def status_response_def)
  have h: "status_code (once_limited_server 0 (Params 100 2021 None)) = 429 \<and>
      page_of (once_limited_server 1 (Params 100 2021 None)) =
        Some (JList [JObj [(''id'', JInt 1)]], JNull) \<and>
      list_extend [] (JList [JObj [(''id'', JInt 1)]]) = Inr [JObj [(''id'', JInt 1)]]"
    by (simp add: once_limited_server_def status_response_def ok_response_def page_of_def
        http_error_def next_cursor_of_def get1_def py_lookup_def list_extend_def)
  note r5 = rate_limit_handling [where srv = once_limited_server and y = 2021
      and mp = MAX_PAGES and items = "JList [JObj [(''id'', JInt 1)]]" and ?c1.0 = JNull
      and ?g1.0 = "[JObj [(''id'', JInt 1)]]",
      THEN conjunct2, THEN conjunct2, THEN conjunct2, THEN conjunct2]
  from r5 h have "fetch_season MAX_PAGES once_limited_server 2021 =
        pagination MAX_PAGES once_limited_server 2021 1 JNull [JObj [(''id'', JInt 1)]] 2
          [Request (Params 100 2021 None), Sleep 12, Request (Params 100 2021 None)]"
    by (rule mp)
  then have i: "fetch_season MAX_PAGES once_limited_server 2021 =
     ([Request (Params 100 2021 None), Sleep 12, Request (Params 100 2021 None)],
      Inr (1, [JObj [(''id'', JInt 1)]]))"
    by (simp add: pagination.simps)
  from a b b' d e f g i show ?thesis by (intro conjI) (elim conjE, assumption)+
qed

text \<open>C2 (as stated) fails in the pagination loop: after two consecutive 429 answers to
  the request with cursor 5, that request is issued a third time.\<close>

theorem third_attempt_after_two_429:
  "status_code (twice_limited_server 1 (Params 100 2021 (Some (JInt 5)))) = 429 \<and>
   status_code (twice_limited_server 2 (Params 100 2021 (Some (JInt 5)))) = 429 \<and>
   fetch_season MAX_PAGES twice_limited_server 2021 =
     ([Request (Params 100 2021 None),
       Request (Params 100 2021 (Some (JInt 5))), Sleep 12,
       Request (Params 100 2021 (Some (JInt 5))), Sleep 12,
       Request (Params 100 2021 (Some (JInt 5)))],
      Inr (4, [JObj [(''id'', JInt 1)]]))"
  by (simp add: fetch_season_def twice_limited_server_def ok_response_def status_response_def
      http_error_def next_cursor_of_def get1_def py_lookup_def list_extend_def pagination.simps
      MAX_PAGES_def)

section \<open>The indicator tables on the example\<close>

lemma example_away_conceded:
  "away_conceded example_games = [(''Team A'', 105), (''Team B'', 110)]"
  by code_simp

lemma example_wins: "wins example_games = [(''Team A'', Some 1), (''Team B'', Some 1)]"
  by code_simp

lemma example_best_defenses:
  "best_defenses example_games = [(''Team A'', Some 195), (''Team B'', Some 205)]"
  by code_simp

text \<open>C3 (as amended): on the two games of the example the win table gives Team A and
  Team B one win each, also in the report; in the away component of the defensive table
  (the mean of the home side's score over a team's away games) Team A has 105 and
  Team B has 110. The value 90 is Team A's mean in the home component.\<close>

theorem aggregation_example:
  "map_of (wins example_games) ''Team A'' = Some (Some 1) \<and>
   map_of (wins example_games) ''Team B'' = Some (Some 1) \<and>
   map_of (r_wins (indicators example_games)) ''Team A'' = Some (Some 1) \<and>
   map_of (r_wins (indicators example_games)) ''Team B'' = Some (Some 1) \<and>
   map_of (away_conceded example_games) ''Team A'' = Some 105 \<and>
   map_of (away_conceded example_games) ''Team B'' = Some 110 \<and>
   map_of (home_conceded example_games) ''Team A'' = Some 90 \<and>
   map_of (home_conceded example_games) ''Team B'' = Some 95"
  by code_simp

text \<open>C3 (as stated) fails: Team B's away game is the one that Team A won 110 to 90, in
  which Team B conceded 110 points, not 90.\<close>

theorem away_conceded_team_b_not_90:
  "map_of (away_conceded example_games) ''Team B'' \<noteq> Some 90"
  by code_simp

section \<open>The counters of a validation run\<close>

lemma count_kind_append:
  "count_kind k (ls @ [l]) = count_kind k ls + (if has_type k l then 1 else 0)"
  by (simp add: count_kind_def)

lemma error_record_type:
  assumes "build_dict [(''type'', Inr (JStr t)), (''game_id_hint'', a), (''season'', b),
             (''reason'', Inr (JStr r))] = Inr er_s"
  shows "has_type k (y, JObj er_s) = (t = k)"
  using assms
  by (cases a; cases b) (auto simp: has_type_def get1_def py_lookup_def)

lemma validate_game_step:
  assumes "validate_game P y g st = Inr st'"
  shows "(counters_agree st \<longrightarrow> counters_agree st') \<and> counts_le (counters st) (counters st')"
proof (cases "model_validate P g")
  case (Inr gm)
  with assms have "st' = st\<lparr>valid_lines := valid_lines st @ [(y, model_dump gm)]\<rparr>"
    by (simp add: validate_game_def)
  then show ?thesis by (simp add: counters_agree_def counts_le_def)
next
  case (Inl msg)
  let ?same = "contains ''Home and visitor teams cannot be identical'' msg"
  let ?t = "if ?same then ''same_team'' else ''invalid_schema''"
  from assms Inl obtain er_s where
    b: "build_dict [(''type'', Inr (JStr ?t)), (''game_id_hint'', get1 g ''id''),
          (''season'', get1 g ''season''), (''reason'', Inr (JStr (take 300 msg)))] = Inr er_s"
    and s: "st' = st\<lparr>counters :=
                 (if ?same
                  then (counters st)\<lparr>same_team := same_team (counters st) + 1\<rparr>
                  else (counters st)\<lparr>invalid_schema := invalid_schema (counters st) + 1\<rparr>),
               error_lines := error_lines st @ [(y, JObj er_s)]\<rparr>"
    by (auto simp: validate_game_def Let_def split: sum.splits)
  have t: "\<And>k. has_type k (y, JObj er_s) = (?t = k)"
    using b by (rule error_record_type)
  show ?thesis
    unfolding s
    by (cases ?same) (simp_all add: counters_agree_def counts_le_def count_kind_append t)
qed

lemma counts_le_refl: "counts_le a a"
  by (simp add: counts_le_def)

lemma counts_le_trans: "counts_le a b \<Longrightarrow> counts_le b c \<Longrightarrow> counts_le a c"
  by (simp add: counts_le_def)

lemma validate_partition_steps:
  "validate_partition P y gs st = Inr st' \<Longrightarrow>
   (counters_agree st \<longrightarrow> counters_agree st') \<and> counts_le (counters st) (counters st')"
proof (induction gs arbitrary: st)
  case Nil
  then show ?case by (simp add: counts_le_refl)
next
  case (Cons g gs)
  from Cons.prems obtain s1 where a: "validate_game P y g st = Inr s1"
    and b: "validate_partition P y gs s1 = Inr st'"
    by (auto split: sum.splits)
  from validate_game_step [OF a] Cons.IH [OF b] show ?case
    by (blast intro: counts_le_trans)
qed

lemma validate_files_steps:
  "validate_files P raw ys st = Inr st' \<Longrightarrow>
   (counters_agree st \<longrightarrow> counters_agree st') \<and> counts_le (counters st) (counters st')"
proof (induction ys arbitrary: st)
  case Nil
  then show ?case by (simp add: counts_le_refl)
next
  case (Cons y ys)
  from Cons.prems obtain gs s1 where a: "validate_partition P y gs st = Inr s1"
    and b: "validate_files P raw ys s1 = Inr st'"
    by (auto split: sum.splits option.splits)
  from validate_partition_steps [OF a] Cons.IH [OF b] show ?case
    by (blast intro: counts_le_trans)
qed

lemma init_agree: "counters_agree init_state"
  by (simp add: counters_agree_def init_state_def count_kind_def)

text \<open>Take any point of a run that no exception has left, reached after whole files
  \<open>ys\<close> and then the records \<open>gs\<close> of a further file, and the processing of one more
  record \<open>g\<close>. At each of these points each counter equals the number of error lines of
  its kind appended so far, and from each point to the next no counter decreases.\<close>

lemma counters_track_error_lines:
  assumes "validate_files P raw ys init_state = Inr sa"
      and "validate_partition P y gs sa = Inr sb"
      and "validate_game P y g sb = Inr sc"
  shows "counters_agree sa \<and> counters_agree sb \<and> counters_agree sc \<and>
         counts_le (counters init_state) (counters sa) \<and>
         counts_le (counters sa) (counters sb) \<and> counts_le (counters sb) (counters sc)"
  using validate_files_steps [OF assms(1)] validate_partition_steps [OF assms(2)]
    validate_game_step [OF assms(3)] init_agree
  by blast

lemma counters_track_error_lines_example:
  "\<exists>sa sb sc.
     validate_files pydantic_lax example_raw [2020] init_state = Inr sa \<and>
     validate_partition pydantic_lax 2021 [JObj (raw_game (JInt 7) team_a team_b)] sa = Inr sb \<and>
     validate_game pydantic_lax 2021 (JObj (raw_game (JInt 8) team_a team_a)) sb = Inr sc \<and>
     counters_agree sc \<and> counts_le (counters sa) (counters sc) \<and>
     counters sc = \<lparr>invalid_schema = 2, same_team = 0\<rparr>"
proof -
  define sa where "sa = projr (validate_files pydantic_lax example_raw [2020] init_state)"
  define sb where
    "sb = projr (validate_partition pydantic_lax 2021 [JObj (raw_game (JInt 7) team_a team_b)] sa)"
  define sc where
    "sc = projr (validate_game pydantic_lax 2021 (JObj (raw_game (JInt 8) team_a team_a)) sb)"
  have "\<not> isl (validate_files pydantic_lax example_raw [2020] init_state)"
    by code_simp
  then have a: "validate_files pydantic_lax example_raw [2020] init_state = Inr sa"
    unfolding sa_def by simp
  have "\<not> isl (validate_partition pydantic_lax 2021 [JObj (raw_game (JInt 7) team_a team_b)] sa)"
    unfolding sa_def by code_simp
  then have b: "validate_partition pydantic_lax 2021 [JObj (raw_game (JInt 7) team_a team_b)] sa = Inr sb"
    unfolding sb_def by simp
  have "\<not> isl (validate_game pydantic_lax 2021 (JObj (raw_game (JInt 8) team_a team_a)) sb)"
    unfolding sb_def sa_def by code_simp
  then have c: "validate_game pydantic_lax 2021 (JObj (raw_game (JInt 8) team_a team_a)) sb = Inr sc"
    unfolding sc_def by simp
  have d: "counters sc = \<lparr>invalid_schema = 2, same_team = 0\<rparr>"
    unfolding sc_def sb_def sa_def by code_simp
  from counters_track_error_lines [OF a b c]
  have "counters_agree sc" and "counts_le (counters sa) (counters sc)"
    by (auto intro: counts_le_trans)
  with a b c d show ?thesis by blast
qed

text \<open>C7 fails on the code, by the defect of C4: the handler increments the counter
  before \<^verbatim>\<open>game.get\<close> raises on a record that is not a dictionary, so the run is left
  with a counter that is one ahead of the error lines appended. (At the record
  boundaries of a run that no exception has left the counters do agree with the error
  lines and never decrease, see \<open>counters_track_error_lines\<close>.)\<close>

theorem counter_ahead_of_error_lines_at_raise:
  "\<exists>st. validate_partition P 2021 [JInt 5] init_state = Inl (AttributeError, st) \<and>
        error_lines st = [] \<and>
        invalid_schema (counters st) + same_team (counters st) = 1 \<and>
        \<not> counters_agree st"
  by (simp add: validate_game_def get1_def Let_def init_state_def counters_agree_def
      count_kind_def)

section \<open>The quality reports\<close>

lemma clean_and_report_reports:
  "r \<in> set (reports (fst (clean_and_report W old st ys out))) \<Longrightarrow>
   r \<in> set (reports out) \<or> error_counts (snd r) = counters st"
proof (induction ys arbitrary: out)
  case Nil
  then show ?case by simp
next
  case (Cons y ys)
  show ?case
  proof (cases "validated_file old st y")
    case None
    with Cons show ?thesis by simp
  next
    case (Some lines)
    show ?thesis
    proof (cases "flatten_all lines")
      case (Inl e)
      with Some Cons.prems show ?thesis by simp
    next
      case (Inr rows)
      show ?thesis
      proof (cases "W rows")
        case (Some e)
        with \<open>validated_file old st y = Some lines\<close> Inr Cons.prems show ?thesis by simp
      next
        case None
      let ?out = "out\<lparr>clean := clean out @ [(y, rows)],
                 reports := reports out @
                   [(y,
                     \<lparr>total_valid =
                        int (length (filter (\<lambda>y. validated_file old st y \<noteq> None) YEARS)),
                      error_counts = counters st\<rparr>)]\<rparr>"
      from Cons.prems \<open>validated_file old st y = Some lines\<close> Inr None
      have "r \<in> set (reports (fst (clean_and_report W old st ys ?out)))" by simp
      from Cons.IH [OF this] show ?thesis by auto
      qed
    qed
  qed
qed

text \<open>C9: every quality report that a run writes, also when the second loop is later
  left by an exception and whatever the writing of the clean tables does, carries the
  counters as they are after the validation loop over all files has completed; in
  particular a report exists only if that loop completed.\<close>

theorem reports_carry_final_counters:
  assumes "r \<in> set (reports (fst (main P W raw old)))"
  shows "\<exists>st. validate_files P raw YEARS init_state = Inr st \<and>
              error_counts (snd r) = counters st"
proof (cases "validate_files P raw YEARS init_state")
  case (Inl e)
  with assms show ?thesis by (simp add: main_def no_outputs_def)
next
  case (Inr st)
  with assms have "r \<in> set (reports (fst (clean_and_report W old st YEARS no_outputs)))"
    by (simp add: main_def)
  from clean_and_report_reports [OF this] Inr show ?thesis
    by (simp add: no_outputs_def)
qed

lemma example_main_reports:
  "reports (fst (main pydantic_lax parquet_ok example_raw no_files)) =
     [(2021, \<lparr>total_valid = 1, error_counts = \<lparr>invalid_schema = 2, same_team = 0\<rparr>\<rparr>)]"
  by code_simp

theorem reports_carry_final_counters_witness:
  "(2021, \<lparr>total_valid = 1, error_counts = \<lparr>invalid_schema = 2, same_team = 0\<rparr>\<rparr>)
     \<in> set (reports (fst (main pydantic_lax parquet_ok example_raw no_files))) \<and>
   (\<exists>st. validate_files pydantic_lax example_raw YEARS init_state = Inr st \<and>
         counters st = \<lparr>invalid_schema = 2, same_team = 0\<rparr>)"
proof -
  have m: "(2021, \<lparr>total_valid = 1, error_counts = \<lparr>invalid_schema = 2, same_team = 0\<rparr>\<rparr>)
     \<in> set (reports (fst (main pydantic_lax parquet_ok example_raw no_files)))"
    unfolding example_main_reports by simp
  from reports_carry_final_counters [OF m] obtain st
    where "validate_files pydantic_lax example_raw YEARS init_state = Inr st"
      and "counters st = \<lparr>invalid_schema = 2, same_team = 0\<rparr>"
    by auto
  with m show ?thesis by blast
qed

section \<open>Records that are not dictionaries, and records with twice the same team\<close>

lemma dict_record_never_raises:
  "\<exists>st'. validate_game P y (JObj kvs) st = Inr st'"
  by (cases "model_validate P (JObj kvs)") (simp_all add: validate_game_def get1_def Let_def)

lemma non_dict_record_raises:
  assumes "\<forall>kvs. g \<noteq> JObj kvs"
  shows "\<exists>st'. validate_game P y g st = Inl (AttributeError, st') \<and>
               error_lines st' = error_lines st \<and> valid_lines st' = valid_lines st \<and>
               invalid_schema (counters st') + same_team (counters st') =
                 invalid_schema (counters st) + same_team (counters st) + 1"
  using assms by (cases g) (simp_all add: validate_game_def get1_def Let_def)

text \<open>C4 fails on the code: a record that is not a dictionary is rejected by
  \<^verbatim>\<open>model_validate\<close>, and in the handler \<^verbatim>\<open>game.get("id")\<close> raises
  \<^verbatim>\<open>AttributeError\<close>, which nothing catches; a counter has been incremented, no error
  record is written and the loop is left. (This holds for every record that is not a
  dictionary, see \<open>non_dict_record_raises\<close>; a record that is a dictionary never raises,
  see \<open>dict_record_never_raises\<close>.)\<close>

theorem non_dict_record_aborts_partition:
  "validate_partition P 2021 [JInt 5] init_state =
     Inl (AttributeError,
          init_state\<lparr>counters :=
            (if contains ''Home and visitor teams cannot be identical'' (schema_text P (JInt 5))
             then \<lparr>invalid_schema = 0, same_team = 1\<rparr>
             else \<lparr>invalid_schema = 1, same_team = 0\<rparr>)\<rparr>)"
  by (simp add: validate_game_def get1_def Let_def init_state_def)

lemma same_team_failure_text:
  assumes "game_fields P (map_of kvs) = Some g"
      and "TeamInfo.id' (Game.home_team g) = TeamInfo.id' (Game.visitor_team g)"
  shows "model_validate P (JObj kvs) =
           Inl (value_error_text P ''Home and visitor team cannot be identical'' (JObj kvs))"
  using assms by (simp add: check_team_different_def)

text \<open>C1 fails on the code: the handler looks for the text
  \<^verbatim>\<open>Home and visitor teams cannot be identical\<close>, but the validator raises
  \<^verbatim>\<open>Home and visitor team cannot be identical\<close>. A record whose teams are the same and
  that is valid otherwise is counted and logged as \<^verbatim>\<open>invalid_schema\<close>.\<close>

theorem same_team_counted_as_invalid_schema:
  "validate_game pydantic_lax 2021 (JObj (raw_game (JInt 8) team_a team_a)) init_state =
     Inr \<lparr>counters = \<lparr>invalid_schema = 1, same_team = 0\<rparr>,
          valid_lines = [],
          error_lines =
            [(2021,
              JObj [(''type'', JStr ''invalid_schema''),
                    (''game_id_hint'', JInt 8),
                    (''season'', JInt 2021),
                    (''reason'',
                     JStr (''1 validation error for Game'' @ [CHR 0x0A] @
                           ''  Value error, Home and visitor team cannot be identical [type=value_error]''))])]\<rparr>"
  by code_simp

lemma needle_not_in_raised_text:
  "\<not> contains ''Home and visitor teams cannot be identical''
        ''Home and visitor team cannot be identical''"
  by code_simp

section \<open>Unknown fields\<close>

lemma map_of_dict_update:
  "map_of (dict_update k v kvs) k' = (if k' = k then Some v else map_of kvs k')"
  by (induction kvs) auto

lemma map_of_add_fields:
  "list_all (\<lambda>kv. fst kv \<noteq> k) extras \<Longrightarrow> map_of (add_fields extras kvs) k = map_of kvs k"
  unfolding add_fields_def
  by (induction extras arbitrary: kvs) (auto simp: map_of_dict_update)

lemma unknown_to_key:
  "unknown_to known extras \<Longrightarrow> k \<in> set known \<Longrightarrow> list_all (\<lambda>kv. fst kv \<noteq> k) extras"
  by (auto simp: unknown_to_def list_all_iff)

lemma team_fields_cong:
  assumes "\<And>k. k \<in> set TEAM_FIELDS \<Longrightarrow> f' k = f k"
  shows "team_fields P f' = team_fields P f"
  unfolding team_fields_def by (simp add: assms TEAM_FIELDS_def)

lemma validate_team_add:
  assumes "unknown_to TEAM_FIELDS extras"
  shows "validate_team P (add_team_fields extras j) = validate_team P j"
proof (cases j)
  case (JObj kvs)
  have "team_fields P (map_of (add_fields extras kvs)) = team_fields P (map_of kvs)"
    by (rule team_fields_cong) (simp add: map_of_add_fields unknown_to_key [OF assms])
  with JObj show ?thesis by simp
qed simp_all

lemma map_of_in_teams:
  "map_of (map (in_teams hx vx) kvs) k = map_option (\<lambda>v. snd (in_teams hx vx (k, v))) (map_of kvs k)"
  by (induction kvs) (auto simp: in_teams_def)

lemma game_fields_cong:
  assumes s: "\<And>k. k \<in> set GAME_FIELDS \<Longrightarrow> k \<noteq> ''home_team'' \<Longrightarrow> k \<noteq> ''visitor_team'' \<Longrightarrow> f' k = f k"
      and h: "required (validate_team P) (f' ''home_team'') = required (validate_team P) (f ''home_team'')"
      and v: "required (validate_team P) (f' ''visitor_team'') = required (validate_team P) (f ''visitor_team'')"
  shows "game_fields P f' = game_fields P f"
  unfolding game_fields_def by (simp add: s h v GAME_FIELDS_def)

lemma required_team_add:
  assumes "unknown_to TEAM_FIELDS extras"
  shows "required (validate_team P) (map_option (add_team_fields extras) v) =
         required (validate_team P) v"
  by (cases v) (simp_all add: required_def validate_team_add [OF assms])

lemma game_fields_with_extras:
  assumes t: "unknown_to GAME_FIELDS tx" and h: "unknown_to TEAM_FIELDS hx"
      and v: "unknown_to TEAM_FIELDS vx"
  shows "game_fields P (map_of (with_extras tx hx vx kvs)) = game_fields P (map_of kvs)"
proof (rule game_fields_cong)
  fix k assume k: "k \<in> set GAME_FIELDS" "k \<noteq> ''home_team''" "k \<noteq> ''visitor_team''"
  have "map_of (with_extras tx hx vx kvs) k = map_of (map (in_teams hx vx) kvs) k"
    unfolding with_extras_def using unknown_to_key [OF t k(1)] by (rule map_of_add_fields)
  also have "\<dots> = map_of kvs k"
    using k(2,3) by (simp add: map_of_in_teams in_teams_def option.map_ident)
  finally show "map_of (with_extras tx hx vx kvs) k = map_of kvs k" .
next
  have k: "''home_team'' \<in> set GAME_FIELDS" by (simp add: GAME_FIELDS_def)
  have "map_of (with_extras tx hx vx kvs) ''home_team'' =
        map_of (map (in_teams hx vx) kvs) ''home_team''"
    unfolding with_extras_def using unknown_to_key [OF t k] by (rule map_of_add_fields)
  also have "\<dots> = map_option (add_team_fields hx) (map_of kvs ''home_team'')"
    by (simp add: map_of_in_teams in_teams_def)
  finally show "required (validate_team P) (map_of (with_extras tx hx vx kvs) ''home_team'') =
                required (validate_team P) (map_of kvs ''home_team'')"
    by (simp add: required_team_add [OF h])
next
  have k: "''visitor_team'' \<in> set GAME_FIELDS" by (simp add: GAME_FIELDS_def)
  have "map_of (with_extras tx hx vx kvs) ''visitor_team'' =
        map_of (map (in_teams hx vx) kvs) ''visitor_team''"
    unfolding with_extras_def using unknown_to_key [OF t k] by (rule map_of_add_fields)
  also have "\<dots> = map_option (add_team_fields vx) (map_of kvs ''visitor_team'')"
    by (simp add: map_of_in_teams in_teams_def)
  finally show "required (validate_team P) (map_of (with_extras tx hx vx kvs) ''visitor_team'') =
                required (validate_team P) (map_of kvs ''visitor_team'')"
    by (simp add: required_team_add [OF v])
qed

lemma model_dump_keys: "\<exists>d. model_dump g = JObj d \<and> map fst d = GAME_FIELDS"
  by (simp add: model_dump_def GAME_FIELDS_def)

text \<open>C8: take a record that validates, and add entries whose keys are not fields of
  \<^verbatim>\<open>Game\<close> at top level and entries whose keys are not fields of \<^verbatim>\<open>TeamInfo\<close> to its home
  team and to its visitor team. The record still validates, to the same \<^verbatim>\<open>Game\<close>; the
  added entries are not part of it, and its dump has the fields of \<^verbatim>\<open>Game\<close> only.\<close>

theorem unknown_fields_ignored:
  assumes "unknown_to GAME_FIELDS tx" and "unknown_to TEAM_FIELDS hx"
      and "unknown_to TEAM_FIELDS vx"
      and "model_validate P (JObj kvs) = Inr g"
  shows "model_validate P (JObj (with_extras tx hx vx kvs)) = Inr g \<and>
         (\<exists>d. model_dump g = JObj d \<and> map fst d = GAME_FIELDS)"
proof -
  from assms(4) obtain g0 where a: "game_fields P (map_of kvs) = Some g0"
    and b: "check_team_different g0 = Inr g"
    by (auto split: option.splits sum.splits)
  have "model_validate P (JObj (with_extras tx hx vx kvs)) = Inr g"
    by (simp add: game_fields_with_extras [OF assms(1-3)] a b)
  with model_dump_keys show ?thesis by blast
qed

theorem unknown_fields_ignored_witness:
  "model_validate pydantic_lax
     (JObj (with_extras [(''foo'', JInt 1)] [(''bar'', JNull)] [(''baz'', JStr ''x'')]
              (raw_game (JInt 7) team_a team_b))) =
   model_validate pydantic_lax (JObj (raw_game (JInt 7) team_a team_b)) \<and>
   \<not> isl (model_validate pydantic_lax (JObj (raw_game (JInt 7) team_a team_b))) \<and>
   map_of (with_extras [(''foo'', JInt 1)] [(''bar'', JNull)] [(''baz'', JStr ''x'')]
              (raw_game (JInt 7) team_a team_b)) ''foo'' = Some (JInt 1)"
proof -
  define g where "g = projr (model_validate pydantic_lax (JObj (raw_game (JInt 7) team_a team_b)))"
  have n: "\<not> isl (model_validate pydantic_lax (JObj (raw_game (JInt 7) team_a team_b)))"
    by code_simp
  then have v: "model_validate pydantic_lax (JObj (raw_game (JInt 7) team_a team_b)) = Inr g"
    unfolding g_def by simp
  have t: "unknown_to GAME_FIELDS [(''foo'', JInt 1)]" by code_simp
  have h: "unknown_to TEAM_FIELDS [(''bar'', JNull)]" by code_simp
  have x: "unknown_to TEAM_FIELDS [(''baz'', JStr ''x'')]" by code_simp
  have f: "map_of (with_extras [(''foo'', JInt 1)] [(''bar'', JNull)] [(''baz'', JStr ''x'')]
              (raw_game (JInt 7) team_a team_b)) ''foo'' = Some (JInt 1)"
    by code_simp
  from unknown_fields_ignored [OF t h x v] v n f show ?thesis by simp
qed

section \<open>From an accepted record to its flat row\<close>

lemma flatten_model_dump:
  "flatten (model_dump g) = Inr
     [(''game_id'', JInt (Game.id' g)),
      (''date'', JStr (Game.date g)),
      (''season'', JInt (Game.season g)),
      (''status'', JStr (Game.status g)),
      (''periode'', JInt (Game.period g)),
      (''postseason'', JBool (Game.postseason g)),
      (''home_team_id'', JInt (TeamInfo.id' (Game.home_team g))),
      (''home_team_full_name'', JStr (full_name (Game.home_team g))),
      (''home_team_score'', JInt (Game.home_team_score g)),
      (''visitor_team_id'', JInt (TeamInfo.id' (Game.visitor_team g))),
      (''visitor_team_full_name'', JStr (full_name (Game.visitor_team g))),
      (''visitor_team_score'', JInt (Game.visitor_team_score g))]"
  by (simp add: flatten_def model_dump_def dump_team_def get1_def py_lookup_def)

lemma game_fields_id:
  assumes "game_fields P f = Some g"
  shows "required (int_of P) (f ''id'') = Some (Game.id' g)"
proof (cases "required (int_of P) (f ''id'')")
  case None
  with assms show ?thesis by (simp add: game_fields_def)
next
  case (Some i)
  from assms have "Game.id' g = i"
    unfolding game_fields_def Some
    by (auto simp: bind_eq_Some_conv)
  with Some show ?thesis by simp
qed

text \<open>C5 (as amended): for every record that validation accepts, flattening the dumped
  \<^verbatim>\<open>Game\<close> does not raise, and the \<^verbatim>\<open>game_id\<close> of the row is the integer that the
  \<^verbatim>\<open>int\<close> conversion made of the record's \<^verbatim>\<open>id\<close> entry. It is that entry itself
  whenever the entry is an integer that the conversion leaves as it is.\<close>

theorem validated_row_game_id:
  assumes "model_validate P rec = Inr g"
  shows "\<exists>row v. validated_row P rec = Some (Inr row) \<and>
           map_of row ''game_id'' = Some (JInt (Game.id' g)) \<and>
           get1 rec ''id'' = Inr v \<and> int_of P v = Some (Game.id' g) \<and>
           (\<forall>n. v = JInt n \<and> int_of P (JInt n) = Some n \<longrightarrow> map_of row ''game_id'' = Some v)"
proof -
  from assms obtain kvs g0 where r: "rec = JObj kvs"
    and a: "game_fields P (map_of kvs) = Some g0" and b: "check_team_different g0 = Inr g"
    by (cases rec) (auto split: option.splits sum.splits)
  from b have g: "g0 = g" by (simp add: check_team_different_def split: if_splits)
  from game_fields_id [OF a] obtain v where v: "map_of kvs ''id'' = Some v"
    and i: "int_of P v = Some (Game.id' g)"
    unfolding g by (auto simp: required_def split: option.splits)
  let ?row = "[(''game_id'', JInt (Game.id' g)),
      (''date'', JStr (Game.date g)),
      (''season'', JInt (Game.season g)),
      (''status'', JStr (Game.status g)),
      (''periode'', JInt (Game.period g)),
      (''postseason'', JBool (Game.postseason g)),
      (''home_team_id'', JInt (TeamInfo.id' (Game.home_team g))),
      (''home_team_full_name'', JStr (full_name (Game.home_team g))),
      (''home_team_score'', JInt (Game.home_team_score g)),
      (''visitor_team_id'', JInt (TeamInfo.id' (Game.visitor_team g))),
      (''visitor_team_full_name'', JStr (full_name (Game.visitor_team g))),
      (''visitor_team_score'', JInt (Game.visitor_team_score g))]"
  have c1: "validated_row P rec = Some (Inr ?row)"
    by (simp add: validated_row_def assms flatten_model_dump)
  have c2: "map_of ?row ''game_id'' = Some (JInt (Game.id' g))" by simp
  have c3: "get1 rec ''id'' = Inr v" by (simp add: r get1_def py_lookup_def v)
  have c4: "\<forall>n. v = JInt n \<and> int_of P (JInt n) = Some n \<longrightarrow> map_of ?row ''game_id'' = Some v"
    using i by auto
  show ?thesis
    by (rule exI [of _ ?row], rule exI [of _ v]) (intro conjI c1 c2 c3 i c4)
qed

theorem validated_row_game_id_witness:
  "\<exists>row. validated_row pydantic_lax (JObj (raw_game (JInt 7) team_a team_b)) = Some (Inr row) \<and>
         map_of row ''game_id'' = Some (JInt 7) \<and>
         get1 (JObj (raw_game (JInt 7) team_a team_b)) ''id'' = Inr (JInt 7)"
proof -
  define g where "g = projr (model_validate pydantic_lax (JObj (raw_game (JInt 7) team_a team_b)))"
  have "\<not> isl (model_validate pydantic_lax (JObj (raw_game (JInt 7) team_a team_b)))"
    by code_simp
  then have v: "model_validate pydantic_lax (JObj (raw_game (JInt 7) team_a team_b)) = Inr g"
    unfolding g_def by simp
  have i: "Game.id' g = 7" unfolding g_def by code_simp
  have k: "get1 (JObj (raw_game (JInt 7) team_a team_b)) ''id'' = Inr (JInt 7)" by code_simp
  from validated_row_game_id [OF v] obtain row where
    "validated_row pydantic_lax (JObj (raw_game (JInt 7) team_a team_b)) = Some (Inr row)"
    and "map_of row ''game_id'' = Some (JInt (Game.id' g))"
    by (elim exE conjE)
  with i k show ?thesis by (intro exI [of _ row]) simp
qed

text \<open>C5 (as stated) fails: in pydantic's default mode a string of digits is accepted for
  an \<^verbatim>\<open>int\<close> field. The record whose \<^verbatim>\<open>id\<close> is the string \<^verbatim>\<open>"7"\<close> validates, and
  the \<^verbatim>\<open>game_id\<close> of its row is the integer 7, not the string of the input.\<close>

theorem string_id_gives_integer_game_id:
  "validated_row pydantic_lax (JObj (raw_game (JStr ''7'') team_a team_b)) =
     Some (Inr [(''game_id'', JInt 7), (''date'', JStr ''2021-10-19''),
                (''season'', JInt 2021), (''status'', JStr ''Final''),
                (''periode'', JInt 4), (''postseason'', JBool False),
                (''home_team_id'', JInt 1),
                (''home_team_full_name'', JStr ''Boston Celtics''),
                (''home_team_score'', JInt 110), (''visitor_team_id'', JInt 2),
                (''visitor_team_full_name'', JStr ''Los Angeles Lakers''),
                (''visitor_team_score'', JInt 90)]) \<and>
   get1 (JObj (raw_game (JStr ''7'') team_a team_b)) ''id'' = Inr (JStr ''7'') \<and>
   JInt 7 \<noteq> JStr ''7''"
  by code_simp

end
